theory Spec2Isabelle
  imports Complex_Main "HOL-Library.Word"
begin

section \<open>Spikeling: conditioning bank, stimulus generator, telemetry and commands\<close>

text \<open>
  The firmware's \<open>float\<close> values are modelled by reals and its \<open>int\<close> values by
  unbounded integers; conversions to a narrower integer type are written out
  (\<open>word_of_int\<close>). Where a floating result is converted to an integer that leaves the
  device or sets the length of the duty cycle (the telemetry quantiser and the
  recomputation of \<open>stim.steps\<close>), every operation is rounded to binary32 (\<open>fl32\<close>);
  the conditioning units compute in exact reals. Pin numbers and the writes to pins, PWM
  channels and the DAC are left out: they do not feed back into the parameter state.
  Every ADC or pin read is an argument of the function that performs it.
\<close>

subsection \<open>C arithmetic\<close>

text \<open>Conversion of a floating value to an integer type truncates towards zero.\<close>

definition c_trunc :: "real \<Rightarrow> int" where
  "c_trunc x = (if 0 \<le> x then \<lfloor>x\<rfloor> else \<lceil>x\<rceil>)"

text \<open>Integer division truncates towards zero.\<close>

definition c_div :: "int \<Rightarrow> int \<Rightarrow> int" where
  "c_div a b = sgn a * sgn b * (\<bar>a\<bar> div \<bar>b\<bar>)"

subsection \<open>Binary32 arithmetic\<close>

text \<open>
  A \<open>float\<close> of the ESP32 is an IEEE 754 binary32 number: 24 significant bits, the
  exponent of a normal number between -126 and 127, the numbers below \<open>2 ^ -126\<close> on
  the grid of step \<open>2 ^ -149\<close>. Every operation yields the exact result rounded to the
  nearest such number, a tie going to the one whose last bit is 0. Results beyond the
  largest finite number, infinities and NaN are outside the model.
\<close>

definition pow2 :: "int \<Rightarrow> real" where
  "pow2 e = (if 0 \<le> e then 2 ^ nat e else 1 / 2 ^ nat (- e))"

text \<open>Rounding to the nearest integer, a tie going to the even one.\<close>

definition round_even :: "real \<Rightarrow> int" where
  "round_even y =
     (let f = \<lfloor>y\<rfloor>; d = y - real_of_int f
      in if d < 1 / 2 then f else if 1 / 2 < d then f + 1 else if even f then f else f + 1)"

text \<open>
  The largest exponent \<open>e'\<close> at most \<open>e\<close> with \<open>2 ^ e' \<le> a\<close>, searched downwards
  over \<open>n\<close> steps.
\<close>

fun ilog2 :: "nat \<Rightarrow> int \<Rightarrow> real \<Rightarrow> int" where
  "ilog2 0 e a = e"
| "ilog2 (Suc n) e a = (if pow2 e \<le> a then e else ilog2 n (e - 1) a)"

text \<open>The exponent of the binade of a magnitude; the subnormal numbers share -126.\<close>

definition expo :: "real \<Rightarrow> int" where
  "expo a = max (- 126) (ilog2 254 127 a)"

definition fl32 :: "real \<Rightarrow> real" where
  "fl32 x = (let u = pow2 (expo \<bar>x\<bar> - 23) in real_of_int (round_even (x / u)) * u)"

definition fadd :: "real \<Rightarrow> real \<Rightarrow> real" where
  "fadd x y = fl32 (x + y)"



definition fdiv :: "real \<Rightarrow> real \<Rightarrow> real" where
  "fdiv x y = fl32 (x / y)"

text \<open>The conversion of an \<open>int\<close> to \<open>float\<close>.\<close>

definition float_of_int :: "int \<Rightarrow> real" where
  "float_of_int i = fl32 (real_of_int i)"

subsection \<open>Constants\<close>

definition bits10 :: int where "bits10 = 1023"
definition bits12 :: int where "bits12 = 4095"

text \<open>\<open>pot.offset = bits12/15\<close>, an integer division.\<close>

definition pot_offset :: int where
  "pot_offset = c_div bits12 15"

subsection \<open>Voltage clamp\<close>

record VoltageClamp =
  IC_value_currentIn :: real
  IC_currentIn_scaling :: real
  IC_current :: real
  IC_pot_value :: real
  IC_pot_scaling :: real
  IC_current_clamp :: real
  IC_enable :: bool

definition IC_init :: VoltageClamp where
  "IC_init = \<lparr> IC_value_currentIn = 0, IC_currentIn_scaling = 1 / 10, IC_current = 0,
     IC_pot_value = 0, IC_pot_scaling = real_of_int bits12 / 100, IC_current_clamp = 0,
     IC_enable = True \<rparr>"

text \<open>\<open>update_InputCurrent\<close>; \<open>adc\<close> is the value \<open>ADC1.read(IC.pot_pin)\<close> returns.\<close>

definition update_InputCurrent :: "int \<Rightarrow> VoltageClamp \<Rightarrow> VoltageClamp" where
  "update_InputCurrent adc ic =
     (if \<not> IC_enable ic then ic
      else
        let ic1 = ic\<lparr>IC_pot_value := real_of_int (adc - c_div bits12 2)\<rparr> in
        if IC_pot_value ic1 \<ge> real_of_int pot_offset then
          ic1\<lparr>IC_current_clamp := (IC_pot_value ic1 - real_of_int pot_offset) / IC_pot_scaling ic1\<rparr>
        else if IC_pot_value ic1 \<le> - real_of_int pot_offset then
          ic1\<lparr>IC_current_clamp := (IC_pot_value ic1 + real_of_int pot_offset) / IC_pot_scaling ic1\<rparr>
        else
          ic1\<lparr>IC_current_clamp := 0\<rparr>)"

subsection \<open>Noise generator\<close>

text \<open>The \<open>Gaussian\<close> object: its two public members.\<close>

record Gaussian =
  mean :: real
  variance :: real

record NoiseGenerator =
  noise_pot_value :: int
  noise_pot_scaling :: real
  noise_amp :: real
  noise_current :: real
  noise_enable :: bool
  noise_mean :: real
  noise_sigma :: real
  noise_newSigma :: real
  noise_var :: real
  noise_dist :: Gaussian

definition noise_init :: NoiseGenerator where
  "noise_init = \<lparr> noise_pot_value = 0, noise_pot_scaling = real_of_int bits12 / 25,
     noise_amp = 0, noise_current = 0, noise_enable = True, noise_mean = 0, noise_sigma = 0,
     noise_newSigma = 0, noise_var = 0, noise_dist = \<lparr> mean = 0, variance = 0 \<rparr> \<rparr>"

text \<open>
  The condition of the source, \<open>fabsf(noise.newSigma != noise.sigma) > 1e-3f\<close>: the
  comparison yields 0 or 1, which is converted to \<open>float\<close> before \<open>fabsf\<close>.
\<close>

definition sigma_changed :: "NoiseGenerator \<Rightarrow> bool" where
  "sigma_changed n =
     (\<bar>(if noise_newSigma n \<noteq> noise_sigma n then 1 else 0) :: real\<bar> > 1 / 1000)"

text \<open>
  \<open>update_Noise\<close>; \<open>adc\<close> is the value \<open>ADC2.read(noise.pot_pin)\<close> returns and
  \<open>random\<close> stands for \<open>noise.dist.random()\<close>, the sample the library draws from the
  distribution it is given.
\<close>

definition update_Noise :: "(Gaussian \<Rightarrow> real) \<Rightarrow> int \<Rightarrow> NoiseGenerator \<Rightarrow> NoiseGenerator" where
  "update_Noise random adc n =
     (if \<not> noise_enable n then n
      else
        let n1 = n\<lparr>noise_pot_value := adc\<rparr> in
        if noise_pot_value n1 \<le> pot_offset then n1\<lparr>noise_current := 0\<rparr>
        else
          let n2 = n1\<lparr>noise_amp := real_of_int (noise_pot_value n1 - pot_offset) / noise_pot_scaling n1\<rparr>;
              n3 = n2\<lparr>noise_newSigma := (1 / 2) * noise_amp n2\<rparr>;
              n4 = (if sigma_changed n3 then
                      let m1 = n3\<lparr>noise_sigma := noise_newSigma n3\<rparr>;
                          m2 = m1\<lparr>noise_var := noise_sigma m1 * noise_sigma m1\<rparr>
                      in m2\<lparr>noise_dist := \<lparr> mean = noise_mean m2, variance = noise_var m2 \<rparr>\<rparr>
                    else n3)
          in n4\<lparr>noise_current := random (noise_dist n4)\<rparr>)"

text \<open>
  The state in which \<open>update_Noise\<close>, autonomous and having read \<open>adc\<close> above the
  offset, reaches its test; and the state the branch of the test leaves.
\<close>

definition noise_at_test :: "int \<Rightarrow> NoiseGenerator \<Rightarrow> NoiseGenerator" where
  "noise_at_test adc n =
     (let n1 = n\<lparr>noise_pot_value := adc\<rparr>;
          n2 = n1\<lparr>noise_amp := real_of_int (noise_pot_value n1 - pot_offset) / noise_pot_scaling n1\<rparr>
      in n2\<lparr>noise_newSigma := (1 / 2) * noise_amp n2\<rparr>)"

definition noise_recompute :: "NoiseGenerator \<Rightarrow> NoiseGenerator" where
  "noise_recompute n3 =
     (let m1 = n3\<lparr>noise_sigma := noise_newSigma n3\<rparr>;
          m2 = m1\<lparr>noise_var := noise_sigma m1 * noise_sigma m1\<rparr>
      in m2\<lparr>noise_dist := \<lparr> mean = noise_mean m2, variance = noise_var m2 \<rparr>\<rparr>)"

subsection \<open>Photodiode\<close>

definition PD_WindowSize :: int where "PD_WindowSize = 10"

record Photodiode =
  PD_pot_value :: int
  PD_pot_scaling :: real
  PD_gain :: real
  PD_amp :: real
  PD_value :: int
  PD_values :: "int list"
  PD_counter :: int
  PD_avgWindow :: int
  PD_sum :: int
  PD_average :: real
  PD_inv_scaling :: real
  PD_decay :: real
  PD_ampMin :: real
  PD_recovery :: real
  PD_polarity :: int
  PD_current :: real
  PD_gain_enable :: bool
  PD_decay_enable :: bool
  PD_recovery_enable :: bool

definition PD_init :: Photodiode where
  "PD_init = \<lparr> PD_pot_value = 0, PD_pot_scaling = real_of_int bits12 / 50, PD_gain = 0,
     PD_amp = 1, PD_value = 0, PD_values = replicate (nat PD_WindowSize) 0, PD_counter = 0,
     PD_avgWindow = PD_WindowSize, PD_sum = 0, PD_average = 0, PD_inv_scaling = 1 / (45 / 100),
     PD_decay = 1 / 1000, PD_ampMin = 0, PD_recovery = 25 / 1000, PD_polarity = 1,
     PD_current = 0, PD_gain_enable = True, PD_decay_enable = True,
     PD_recovery_enable = True \<rparr>"

text \<open>
  The ring buffer (source lines 63 to 73). Reading or writing \<open>PD.values\<close> outside the
  array, and dividing by a zero window, are undefined in C: the model returns \<open>None\<close>.
\<close>

definition PD_store :: "int \<Rightarrow> Photodiode \<Rightarrow> Photodiode option" where
  "PD_store adc p =
     (let p1 = p\<lparr>PD_value := adc\<rparr> in
      if PD_counter p1 < 0 \<or> int (length (PD_values p1)) \<le> PD_counter p1 \<or> PD_avgWindow p1 = 0
      then None
      else
        let i = nat (PD_counter p1);
            p2 = p1\<lparr>PD_sum := PD_sum p1 - PD_values p1 ! i\<rparr>;
            p3 = p2\<lparr>PD_values := (PD_values p2)[i := PD_value p2]\<rparr>;
            p4 = p3\<lparr>PD_sum := PD_sum p3 + PD_value p3\<rparr>;
            p5 = p4\<lparr>PD_counter := PD_counter p4 + 1\<rparr>;
            p6 = (if PD_counter p5 \<ge> PD_avgWindow p5 then p5\<lparr>PD_counter := 0\<rparr> else p5)
        in Some (p6\<lparr>PD_average := real_of_int (c_div (PD_sum p6) (PD_avgWindow p6))\<rparr>))"

text \<open>The gain potentiometer (source lines 76 to 90); \<open>adc\<close> is \<open>ADC1.read(PD.pot_pin)\<close>.\<close>

definition PD_read_gain :: "int \<Rightarrow> Photodiode \<Rightarrow> Photodiode" where
  "PD_read_gain adc p =
     (let q = (if PD_gain_enable p then
                 let p1 = p\<lparr>PD_pot_value := adc - c_div bits12 2\<rparr> in
                 if PD_pot_value p1 \<ge> pot_offset then
                   p1\<lparr>PD_gain := real_of_int (PD_pot_value p1 - pot_offset) / PD_pot_scaling p1\<rparr>
                 else if PD_pot_value p1 \<le> - pot_offset then
                   p1\<lparr>PD_gain := real_of_int (PD_pot_value p1 + pot_offset) / PD_pot_scaling p1\<rparr>
                 else p1\<lparr>PD_gain := 0\<rparr>
               else p)
      in q\<lparr>PD_polarity := (if PD_gain q \<ge> 0 then 1 else - 1)\<rparr>)"

text \<open>
  The photodiode current and the decay of the amplitude (source lines 92 to 103).
\<close>

definition PD_decay_step :: "Photodiode \<Rightarrow> Photodiode" where
  "PD_decay_step p =
     (let p1 = p\<lparr>PD_current := (PD_average p * PD_gain p * PD_inv_scaling p) * PD_amp p\<rparr>;
          p2 = (if PD_decay_enable p1 then p1\<lparr>PD_decay := 1 / 1000\<rparr> else p1)
      in if PD_amp p2 > PD_ampMin p2 then
           let q = p2\<lparr>PD_amp := PD_amp p2 - real_of_int (PD_polarity p2) * PD_decay p2 * PD_current p2\<rparr>
           in if PD_amp q < PD_ampMin q then q\<lparr>PD_amp := PD_ampMin q\<rparr> else q
         else p2)"

text \<open>The recovery of the amplitude (source lines 105 to 111).\<close>

definition PD_recovery_step :: "Photodiode \<Rightarrow> Photodiode" where
  "PD_recovery_step p =
     (let p1 = (if PD_recovery_enable p then p\<lparr>PD_recovery := 25 / 1000\<rparr> else p)
      in if PD_amp p1 < 1 then p1\<lparr>PD_amp := PD_amp p1 + PD_recovery p1\<rparr> else p1)"

definition PD_adapt :: "Photodiode \<Rightarrow> Photodiode" where
  "PD_adapt p = PD_recovery_step (PD_decay_step p)"

text \<open>\<open>update_Photodiode\<close>: the parts in the order of the source.\<close>

definition update_Photodiode :: "int \<Rightarrow> int \<Rightarrow> Photodiode \<Rightarrow> Photodiode option" where
  "update_Photodiode adc_pd adc_pot p =
     (case PD_store adc_pd p of
        None \<Rightarrow> None
      | Some p1 \<Rightarrow> Some (PD_adapt (PD_read_gain adc_pot p1)))"

text \<open>
  The state of a tick between the decay and the recovery of the amplitude.
\<close>

definition PD_before_recovery :: "int \<Rightarrow> int \<Rightarrow> Photodiode \<Rightarrow> Photodiode option" where
  "PD_before_recovery adc_pd adc_pot p =
     (case PD_store adc_pd p of
        None \<Rightarrow> None
      | Some p1 \<Rightarrow> Some (PD_decay_step (PD_read_gain adc_pot p1)))"

text \<open>A run of ticks, one pair of samples for each; it stops at the first undefined step.\<close>

fun run_Photodiode :: "(int \<times> int) list \<Rightarrow> Photodiode \<Rightarrow> Photodiode option" where
  "run_Photodiode [] p = Some p"
| "run_Photodiode ((a, b) # xs) p =
     (case update_Photodiode a b p of None \<Rightarrow> None | Some p' \<Rightarrow> run_Photodiode xs p')"

subsection \<open>Izhikevich presets\<close>

datatype IzhikevichModel =
    TonicSpiking | PhasicSpiking | TonicBursting | PhasicBursting | MixedMode
  | SpikeFrequencyAdaptation | Class1 | Class2 | SpikeLatency | SubThresholdOscillations
  | Resonator | Integrator | ReboundSpike | ReboundBurst | ThresholdVariability
  | Bistability | DAP | Accommodation | InhibitionInducedSpiking
  | InhibitionInducedBursting | Count

record IzhikevichParams =
  p_a :: real
  p_b :: real
  p_c :: real
  p_d :: real
  p_v_rest :: real

text \<open>The enumerators in declaration order: the position of a model is its value.\<close>

definition models :: "IzhikevichModel list" where
  "models = [TonicSpiking, PhasicSpiking, TonicBursting, PhasicBursting, MixedMode,
     SpikeFrequencyAdaptation, Class1, Class2, SpikeLatency, SubThresholdOscillations,
     Resonator, Integrator, ReboundSpike, ReboundBurst, ThresholdVariability,
     Bistability, DAP, Accommodation, InhibitionInducedSpiking,
     InhibitionInducedBursting, Count]"

fun index_of :: "IzhikevichModel \<Rightarrow> IzhikevichModel list \<Rightarrow> nat" where
  "index_of m [] = 0"
| "index_of m (x # xs) = (if m = x then 0 else Suc (index_of m xs))"

definition model_index :: "IzhikevichModel \<Rightarrow> nat" where
  "model_index m = index_of m models"

definition IzhikevichModelCount :: nat where
  "IzhikevichModelCount = model_index Count"

definition mk_params :: "real \<Rightarrow> real \<Rightarrow> real \<Rightarrow> real \<Rightarrow> real \<Rightarrow> IzhikevichParams" where
  "mk_params a b c d r = \<lparr> p_a = a, p_b = b, p_c = c, p_d = d, p_v_rest = r \<rparr>"

definition izhikevich :: "IzhikevichParams list" where
  "izhikevich = [
     mk_params (2 / 100) (20 / 100) (- 65) 6 (- 70),
     mk_params (2 / 100) (25 / 100) (- 65) 6 (- 64),
     mk_params (2 / 100) (20 / 100) (- 50) 2 (- 70),
     mk_params (2 / 100) (25 / 100) (- 55) (5 / 100) (- 64),
     mk_params (2 / 100) (20 / 100) (- 55) 4 (- 70),
     mk_params (1 / 100) (20 / 100) (- 65) 8 (- 70),
     mk_params (2 / 100) (- (10 / 100)) (- 55) 6 (- 60),
     mk_params (20 / 100) (26 / 100) (- 65) 0 (- 64),
     mk_params (2 / 100) (20 / 100) (- 65) 6 (- 70),
     mk_params (5 / 100) (26 / 100) (- 60) 0 (- 62),
     mk_params (10 / 100) (26 / 100) (- 60) (- 1) (- 62),
     mk_params (2 / 100) (- (10 / 100)) (- 55) 6 (- 60),
     mk_params (3 / 100) (25 / 100) (- 60) 4 (- 64),
     mk_params (3 / 100) (25 / 100) (- 52) 0 (- 64),
     mk_params (3 / 100) (25 / 100) (- 60) 4 (- 64),
     mk_params (10 / 100) (26 / 100) (- 60) 0 (- 61),
     mk_params 1 (20 / 100) (- 60) (- 21) (- 70),
     mk_params (2 / 100) 1 (- 55) 4 (- 65),
     mk_params (2 / 100) 1 (- 60) 8 (- (638 / 10)),
     mk_params (26 / 1000) (- 1) (- 45) (- 2) (- (638 / 10))]"

text \<open>
  \<open>getIzhikevichParams\<close> indexes the table with the value of the enumerator. The only
  enumerator outside the table is the sentinel \<open>Count\<close>, where the read is undefined in
  C: \<open>None\<close>.
\<close>

definition getIzhikevichParams :: "IzhikevichModel \<Rightarrow> IzhikevichParams option" where
  "getIzhikevichParams model =
     (if model_index model < length izhikevich then Some (izhikevich ! model_index model)
      else None)"

text \<open>
  \<open>clampToModel\<close>. After the test the index is below \<open>IzhikevichModelCount\<close>, so the
  cast to the enumeration picks the enumerator at that position.
\<close>

definition clampToModel :: "nat \<Rightarrow> IzhikevichModel" where
  "clampToModel index = (let index' = (if index \<ge> IzhikevichModelCount then 0 else index)
                         in models ! index')"

text \<open>The conversion of an \<open>int\<close> to \<open>std::size_t\<close> (32 bits on the ESP32).\<close>

definition to_size_t :: "int \<Rightarrow> nat" where
  "to_size_t i = nat (i mod 2 ^ 32)"

subsection \<open>Neuron, axon and timing\<close>

record NeuronModel =
  neuron_v :: real
  neuron_u :: real
  neuron_dt_ms :: real
  neuron_a :: real
  neuron_b :: real
  neuron_c :: real
  neuron_d :: real
  neuron_v_rest :: real
  neuron_Vm_min :: real
  neuron_Vm_max :: real
  neuron_Vm_spike :: real
  neuron_Vm_peak :: real
  neuron_v_out :: real
  neuron_total_current :: real
  neuron_spike :: bool

definition defaultModel :: IzhikevichModel where
  "defaultModel = TonicSpiking"

definition defaultParams :: IzhikevichParams where
  "defaultParams = izhikevich ! model_index defaultModel"

definition neuron_init :: NeuronModel where
  "neuron_init = \<lparr> neuron_v = p_v_rest defaultParams, neuron_u = 0, neuron_dt_ms = 1 / 10,
     neuron_a = p_a defaultParams, neuron_b = p_b defaultParams, neuron_c = p_c defaultParams,
     neuron_d = p_d defaultParams, neuron_v_rest = p_v_rest defaultParams,
     neuron_Vm_min = - 110, neuron_Vm_max = 100, neuron_Vm_spike = - 30, neuron_Vm_peak = 30,
     neuron_v_out = 0, neuron_total_current = 0, neuron_spike = False \<rparr>"

record Axon =
  axon_Vm :: real
  axon_offset :: real
  axon_Vm_range_inv :: real

definition axon_init :: Axon where
  "axon_init = \<lparr> axon_Vm = 0, axon_offset = - (675 / 100),
     axon_Vm_range_inv = 1 / (neuron_Vm_max neuron_init - neuron_Vm_min neuron_init) \<rparr>"

record Timing =
  current_us :: "32 word"
  lastStep_us :: "32 word"
  step_us :: "32 word"

definition timing_init :: Timing where
  "timing_init = \<lparr> current_us = 0, lastStep_us = 0, step_us = 3000 \<rparr>"

subsection \<open>Synapses\<close>

record Synapse =
  syn_gain :: real
  syn_pot_value :: int
  syn_pot_scaling :: real
  syn_spikeState :: int
  syn_current :: real
  syn_decay :: real
  syn_Vm :: real
  syn_Vm_input :: real
  syn_analogOffsetLow :: real
  syn_analogOffsetHigh :: real
  syn_gain_enable :: bool
  syn_decay_enable :: bool

definition HIGH :: int where "HIGH = 1"
definition LOW :: int where "LOW = 0"

definition syn1_init :: Synapse where
  "syn1_init = \<lparr> syn_gain = 0, syn_pot_value = 0, syn_pot_scaling = real_of_int bits12 / 50,
     syn_spikeState = LOW, syn_current = 0, syn_decay = 995 / 1000, syn_Vm = 0,
     syn_Vm_input = 0, syn_analogOffsetLow = - 10, syn_analogOffsetHigh = - 400,
     syn_gain_enable = True, syn_decay_enable = True \<rparr>"

definition syn2_init :: Synapse where
  "syn2_init = syn1_init\<lparr>syn_decay := 990 / 1000\<rparr>"

definition mapfloat :: "real \<Rightarrow> real \<Rightarrow> real \<Rightarrow> real \<Rightarrow> real \<Rightarrow> real" where
  "mapfloat x in_min in_max out_min out_max =
     (x - in_min) * (out_max - out_min) / (in_max - in_min) + out_min"

text \<open>The three reads of one call of \<open>update_Synapse\<close>.\<close>

record SynapseInput =
  in_digital :: int
  in_pot :: int
  in_analog :: int

text \<open>
  \<open>update_Synapse\<close>; the synapse is passed by reference, the neuron and the axon are the
  globals it reads.
\<close>

definition update_Synapse ::
  "NeuronModel \<Rightarrow> Axon \<Rightarrow> real \<Rightarrow> SynapseInput \<Rightarrow> Synapse \<Rightarrow> Synapse" where
  "update_Synapse neuron axon defaultDecay inp syn =
     (let s1 = syn\<lparr>syn_spikeState := in_digital inp\<rparr>;
          s2 = (if syn_gain_enable s1 then
                  let q = s1\<lparr>syn_pot_value := in_pot inp - c_div bits12 2\<rparr> in
                  if syn_pot_value q \<ge> pot_offset then
                    q\<lparr>syn_gain := real_of_int (syn_pot_value q - pot_offset) / syn_pot_scaling q\<rparr>
                  else if syn_pot_value q \<le> - pot_offset then
                    q\<lparr>syn_gain := real_of_int (syn_pot_value q + pot_offset) / syn_pot_scaling q\<rparr>
                  else q\<lparr>syn_gain := 0\<rparr>
                else s1);
          s3 = (if syn_spikeState s2 = HIGH then s2\<lparr>syn_current := syn_current s2 + syn_gain s2\<rparr>
                else s2);
          s4 = (if syn_decay_enable s3 = True then s3\<lparr>syn_decay := defaultDecay\<rparr> else s3);
          s5 = s4\<lparr>syn_current := syn_current s4 * syn_decay s4\<rparr>;
          s6 = s5\<lparr>syn_Vm_input := real_of_int (in_analog inp)\<rparr>
      in s6\<lparr>syn_Vm := mapfloat (syn_Vm_input s6) (syn_analogOffsetLow s6)
                          (real_of_int bits12 - syn_analogOffsetHigh s6)
                          (neuron_Vm_min neuron) (neuron_Vm_max neuron) + axon_offset axon\<rparr>)"

subsection \<open>Stimulus generator\<close>

record Stimulus =
  stim_strPot :: int
  stim_str_digitalMap :: real
  stim_str_digital :: int
  stim_str_analogMap :: real
  stim_str_analog :: int
  stim_str_analog_min :: int
  stim_freqPot :: int
  stim_freq_map :: real
  stim_freq :: int
  stim_value_digital :: int
  stim_value_analog :: int
  stim_value_custom :: int
  stim_current_scaling :: real
  stim_light_scaling :: real
  stim_light_offset :: real
  stim_counter :: int
  stim_steps :: int
  stim_dutyCycle :: int
  stim_dutyCycle_Min :: int
  stim_state :: int
  stim_trigger :: int
  stim_pwm :: int
  stim_dac :: int
  stim_strength_enable :: bool
  stim_frequency_enable :: bool
  stim_custom_enable :: bool
  stim_trigger_enable :: bool
  stim_serialTrigger_enable :: bool

definition stim_init :: Stimulus where
  "stim_init = \<lparr> stim_strPot = 0,
     stim_str_digitalMap = 100 / real_of_int (c_div bits12 2), stim_str_digital = 0,
     stim_str_analogMap = 200 / real_of_int (c_div bits12 2), stim_str_analog = 0,
     stim_str_analog_min = 5, stim_freqPot = 0, stim_freq_map = 200 / real_of_int bits12,
     stim_freq = 0, stim_value_digital = 0, stim_value_analog = 0, stim_value_custom = 0,
     stim_current_scaling = 9 / 10, stim_light_scaling = 512 / 100, stim_light_offset = 10,
     stim_counter = 0, stim_steps = 0, stim_dutyCycle = 500, stim_dutyCycle_Min = 10,
     stim_state = 0, stim_trigger = 0, stim_pwm = 0, stim_dac = 0,
     stim_strength_enable = True, stim_frequency_enable = True, stim_custom_enable = True,
     stim_trigger_enable = False, stim_serialTrigger_enable = False \<rparr>"

definition ledc_Max :: int where "ledc_Max = 2 ^ 10 - 1"

definition constrain :: "int \<Rightarrow> int \<Rightarrow> int \<Rightarrow> int" where
  "constrain x lo hi = (if x < lo then lo else if x > hi then hi else x)"

text \<open>The conversion \<open>int16_t(x)\<close> of a floating value, read back as an \<open>int\<close>.\<close>

definition to_int16 :: "real \<Rightarrow> int" where
  "to_int16 x = sint (word_of_int (c_trunc x) :: 16 word)"

text \<open>
  The two potentiometer reads at the head of \<open>update_StimulusOutput\<close>. The line that
  assigns \<open>stim.str_digital\<close> has one closing parenthesis too many in the source; it is
  read as the conversion of the whole product, the mapping to -100..100 of its comment.
\<close>

definition stim_read_pots :: "int \<Rightarrow> int \<Rightarrow> Stimulus \<Rightarrow> Stimulus" where
  "stim_read_pots adc_str adc_freq st =
     (let s1 = (if stim_strength_enable st \<and> stim_custom_enable st then
                  let q1 = st\<lparr>stim_strPot := adc_str\<rparr>;
                      q2 = q1\<lparr>stim_str_digital :=
                             to_int16 (real_of_int (stim_strPot q1 - c_div bits12 2) * stim_str_digitalMap q1)\<rparr>
                  in q2\<lparr>stim_str_analog :=
                          to_int16 (real_of_int (stim_strPot q2) * stim_str_analogMap q2 - 100)\<rparr>
                else st)
      in if stim_frequency_enable s1 \<and> stim_custom_enable s1 then
           let q1 = s1\<lparr>stim_freqPot := adc_freq\<rparr>
           in q1\<lparr>stim_freq := to_int16 (100 - real_of_int (stim_freqPot q1) * stim_freq_map q1)\<rparr>
         else s1)"

text \<open>
  The branch taken while \<open>stim.custom_enable\<close> holds (source lines 193 to 233). The
  new length of the cycle is computed in binary32, from left to right, the \<open>int\<close>
  operands converted as they enter; the product \<open>stim.freq * stim.dutyCycle\<close> and the
  final conversion are taken not to leave the range of \<open>int\<close>.
\<close>

definition stim_auto :: "Stimulus \<Rightarrow> Stimulus" where
  "stim_auto st =
     (let s1 = (if stim_str_digital st \<ge> 0 then
                  st\<lparr>stim_value_digital := c_trunc (real_of_int (stim_str_digital st) * stim_light_scaling st)\<rparr>
                else st\<lparr>stim_value_digital := 0\<rparr>);
          s2 = s1\<lparr>stim_value_analog := c_trunc (real_of_int \<bar>stim_str_analog s1\<bar> * stim_current_scaling s1)\<rparr>;
          s3 = (if stim_counter s2 < c_div (stim_steps s2) 2 then
                  s2\<lparr>stim_pwm := constrain (stim_value_digital s2) 0 ledc_Max,
                      stim_dac := stim_value_analog s2, stim_state := stim_str_analog s2\<rparr>
                else s2\<lparr>stim_pwm := 0, stim_dac := 0, stim_state := 0\<rparr>);
          s4 = s3\<lparr>stim_counter := stim_counter s3 + 1\<rparr>;
          s5 = (if \<not> stim_trigger_enable s4 then s4\<lparr>stim_trigger := 0\<rparr> else s4);
          s6 = (if stim_trigger_enable s5 then s5\<lparr>stim_trigger := 1, stim_trigger_enable := False\<rparr>
                else s5)
      in if stim_counter s6 \<ge> stim_steps s6 then
           let s7 = s6\<lparr>stim_counter := 0, stim_trigger_enable := True\<rparr>;
               s = fadd (fadd (float_of_int (stim_dutyCycle s7))
                              (fdiv (float_of_int (stim_freq s7 * stim_dutyCycle s7)) 100))
                        (float_of_int (stim_dutyCycle_Min s7))
           in s7\<lparr>stim_steps := c_trunc (fadd s (1 / 2))\<rparr>
         else s6)"

text \<open>The branch taken otherwise (source lines 238 to 257).\<close>

definition stim_custom :: "Stimulus \<Rightarrow> Stimulus" where
  "stim_custom st =
     (let s1 = st\<lparr>stim_trigger := 0\<rparr>;
          s2 = (if stim_serialTrigger_enable s1 then
                  s1\<lparr>stim_trigger := 1, stim_serialTrigger_enable := False\<rparr>
                else s1);
          s3 = (if stim_value_custom s2 > 0 then
                  s2\<lparr>stim_value_digital := c_trunc (real_of_int (stim_value_custom s2) * stim_light_scaling s2)\<rparr>
                else s2\<lparr>stim_value_digital := 0\<rparr>);
          s4 = s3\<lparr>stim_value_analog := c_trunc (real_of_int \<bar>stim_value_custom s3\<bar> * stim_current_scaling s3)\<rparr>
      in s4\<lparr>stim_state := stim_value_custom s4\<rparr>)"

text \<open>
  \<open>update_StimulusOutput\<close>; \<open>adc_str\<close> and \<open>adc_freq\<close> are what the two reads of ADC2
  return when they are made.
\<close>

definition update_StimulusOutput :: "int \<times> int \<Rightarrow> Stimulus \<Rightarrow> Stimulus" where
  "update_StimulusOutput adc st =
     (let s1 = stim_read_pots (fst adc) (snd adc) st
      in if stim_custom_enable s1 then stim_auto s1 else stim_custom s1)"

text \<open>
  A run of ticks: the state after each tick, in order. The trigger of a tick is
  \<open>stim_trigger\<close> of the state it leaves.
\<close>

fun run_Stimulus :: "(int \<times> int) list \<Rightarrow> Stimulus \<Rightarrow> Stimulus list" where
  "run_Stimulus [] st = []"
| "run_Stimulus (a # as) st =
     (let st' = update_StimulusOutput a st in st' # run_Stimulus as st')"

subsection \<open>Telemetry\<close>








subsection \<open>The shared parameter state\<close>

record Spikeling =
  timing :: Timing
  currentModel :: IzhikevichModel
  neuron :: NeuronModel
  IC :: VoltageClamp
  noise :: NoiseGenerator
  PD :: Photodiode
  syn1 :: Synapse
  syn2 :: Synapse
  axon :: Axon
  stim :: Stimulus
  Buzzer_enable :: bool
  LED_enable :: bool

definition Spikeling_init :: Spikeling where
  "Spikeling_init = \<lparr> timing = timing_init, currentModel = defaultModel, neuron = neuron_init,
     IC = IC_init, noise = noise_init, PD = PD_init, syn1 = syn1_init, syn2 = syn2_init,
     axon = axon_init, stim = stim_init, Buzzer_enable = True, LED_enable = True \<rparr>"

subsection \<open>Serial commands\<close>

text \<open>
  An argument token of a command line is represented by what the C library reads from
  it: \<open>atof\<close> and \<open>atoi\<close> are the two conversions the handlers apply. \<open>SCmd.next()\<close>
  yields the next token, or a null pointer when the line has none: \<open>None\<close>.
\<close>

record token =
  atof :: real
  atoi :: int

definition readNextFloat :: "token option \<Rightarrow> real option" where
  "readNextFloat arg = (case arg of None \<Rightarrow> None | Some t \<Rightarrow> Some (atof t))"

definition readNextInt :: "token option \<Rightarrow> int option" where
  "readNextInt arg = (case arg of None \<Rightarrow> None | Some t \<Rightarrow> Some (atoi t))"

text \<open>
  \<open>setFloatParam\<close> and \<open>setIntParam\<close> take the flag and the parameter by reference:
  here, the update functions of the two fields.
\<close>

definition setFloatParam ::
  "((bool \<Rightarrow> bool) \<Rightarrow> 'r \<Rightarrow> 'r) \<Rightarrow> ((real \<Rightarrow> real) \<Rightarrow> 'r \<Rightarrow> 'r) \<Rightarrow> real \<Rightarrow> token option \<Rightarrow> 'r \<Rightarrow> 'r" where
  "setFloatParam enableFlag param scale arg r =
     (let r1 = enableFlag (\<lambda>_. False) r
      in case readNextFloat arg of
           Some val \<Rightarrow> param (\<lambda>_. val * scale) r1
         | None \<Rightarrow> r1)"

definition setIntParam ::
  "((bool \<Rightarrow> bool) \<Rightarrow> 'r \<Rightarrow> 'r) \<Rightarrow> ((int \<Rightarrow> int) \<Rightarrow> 'r \<Rightarrow> 'r) \<Rightarrow> token option \<Rightarrow> 'r \<Rightarrow> 'r" where
  "setIntParam enableFlag param arg r =
     (let r1 = enableFlag (\<lambda>_. False) r
      in case readNextInt arg of
           Some val \<Rightarrow> param (\<lambda>_. val) r1
         | None \<Rightarrow> r1)"

definition SetRefreshRate :: "token option \<Rightarrow> Spikeling \<Rightarrow> Spikeling" where
  "SetRefreshRate arg s =
     (case readNextInt arg of
        Some val_us \<Rightarrow> s\<lparr>timing := (timing s)\<lparr>step_us := word_of_int val_us\<rparr>\<rparr>
      | None \<Rightarrow> s)"

definition SetNeuronModel :: "IzhikevichModel \<Rightarrow> Spikeling \<Rightarrow> Spikeling option" where
  "SetNeuronModel model s =
     (let s1 = s\<lparr>currentModel := model\<rparr>
      in case getIzhikevichParams model of
           None \<Rightarrow> None
         | Some p \<Rightarrow>
             let n1 = (neuron s1)\<lparr>neuron_a := p_a p, neuron_b := p_b p, neuron_c := p_c p,
                                   neuron_d := p_d p, neuron_v_rest := p_v_rest p\<rparr>;
                 n2 = n1\<lparr>neuron_v := neuron_v_rest n1\<rparr>;
                 n3 = n2\<lparr>neuron_u := neuron_b n2 * neuron_v n2\<rparr>
             in Some (s1\<lparr>neuron := n3\<rparr>))"

definition NeuronMode :: "token option \<Rightarrow> Spikeling \<Rightarrow> Spikeling option" where
  "NeuronMode arg s =
     (case readNextInt arg of
        Some idx \<Rightarrow> SetNeuronModel (clampToModel (to_size_t idx)) s
      | None \<Rightarrow> Some s)"

definition StimFre_on :: "token option \<Rightarrow> Spikeling \<Rightarrow> Spikeling" where
  "StimFre_on arg s = s\<lparr>stim := setIntParam stim_frequency_enable_update stim_freq_update arg (stim s)\<rparr>"

definition StimFre_off :: "Spikeling \<Rightarrow> Spikeling" where
  "StimFre_off s = s\<lparr>stim := (stim s)\<lparr>stim_frequency_enable := True\<rparr>\<rparr>"

definition StimStr_on :: "token option \<Rightarrow> Spikeling \<Rightarrow> Spikeling" where
  "StimStr_on arg s =
     (let st1 = (stim s)\<lparr>stim_strength_enable := False\<rparr>
      in case readNextInt arg of
           Some val \<Rightarrow> s\<lparr>stim := st1\<lparr>stim_str_digital := val, stim_str_analog := val\<rparr>\<rparr>
         | None \<Rightarrow> s\<lparr>stim := st1\<rparr>)"

definition StimStr_off :: "Spikeling \<Rightarrow> Spikeling" where
  "StimStr_off s = s\<lparr>stim := (stim s)\<lparr>stim_strength_enable := True\<rparr>\<rparr>"

definition StimCus_on :: "token option \<Rightarrow> Spikeling \<Rightarrow> Spikeling" where
  "StimCus_on arg s = s\<lparr>stim := setIntParam stim_custom_enable_update stim_value_custom_update arg (stim s)\<rparr>"

definition StimCus_off :: "Spikeling \<Rightarrow> Spikeling" where
  "StimCus_off s = s\<lparr>stim := (stim s)\<lparr>stim_custom_enable := True\<rparr>\<rparr>"

definition Serial_Trigger :: "Spikeling \<Rightarrow> Spikeling" where
  "Serial_Trigger s = s\<lparr>stim := (stim s)\<lparr>stim_serialTrigger_enable := True\<rparr>\<rparr>"

definition PDGain_on :: "token option \<Rightarrow> Spikeling \<Rightarrow> Spikeling" where
  "PDGain_on arg s = s\<lparr>PD := setFloatParam PD_gain_enable_update PD_gain_update (1 / 10) arg (PD s)\<rparr>"

definition PDGain_off :: "Spikeling \<Rightarrow> Spikeling" where
  "PDGain_off s = s\<lparr>PD := (PD s)\<lparr>PD_gain_enable := True\<rparr>\<rparr>"

definition PDDecay_on :: "token option \<Rightarrow> Spikeling \<Rightarrow> Spikeling" where
  "PDDecay_on arg s = s\<lparr>PD := setFloatParam PD_decay_enable_update PD_decay_update 1 arg (PD s)\<rparr>"

definition PDDecay_off :: "Spikeling \<Rightarrow> Spikeling" where
  "PDDecay_off s = s\<lparr>PD := (PD s)\<lparr>PD_decay_enable := True\<rparr>\<rparr>"

definition PDRecovery_on :: "token option \<Rightarrow> Spikeling \<Rightarrow> Spikeling" where
  "PDRecovery_on arg s = s\<lparr>PD := setFloatParam PD_recovery_enable_update PD_recovery_update 1 arg (PD s)\<rparr>"

definition PDRecovery_off :: "Spikeling \<Rightarrow> Spikeling" where
  "PDRecovery_off s = s\<lparr>PD := (PD s)\<lparr>PD_recovery_enable := True\<rparr>\<rparr>"

definition IC_on :: "token option \<Rightarrow> Spikeling \<Rightarrow> Spikeling" where
  "IC_on arg s = s\<lparr>IC := setFloatParam IC_enable_update IC_current_clamp_update 1 arg (IC s)\<rparr>"

definition IC_off :: "Spikeling \<Rightarrow> Spikeling" where
  "IC_off s = s\<lparr>IC := (IC s)\<lparr>IC_enable := True\<rparr>\<rparr>"

definition Noise_on :: "token option \<Rightarrow> Spikeling \<Rightarrow> Spikeling" where
  "Noise_on arg s = s\<lparr>noise := setFloatParam noise_enable_update noise_current_update 1 arg (noise s)\<rparr>"

definition Noise_off :: "Spikeling \<Rightarrow> Spikeling" where
  "Noise_off s = s\<lparr>noise := (noise s)\<lparr>noise_enable := True\<rparr>\<rparr>"

definition Syn1Gain_on :: "token option \<Rightarrow> Spikeling \<Rightarrow> Spikeling" where
  "Syn1Gain_on arg s = s\<lparr>syn1 := setFloatParam syn_gain_enable_update syn_gain_update (25 / 100) arg (syn1 s)\<rparr>"

definition Syn1Gain_off :: "Spikeling \<Rightarrow> Spikeling" where
  "Syn1Gain_off s = s\<lparr>syn1 := (syn1 s)\<lparr>syn_gain_enable := True\<rparr>\<rparr>"

definition Syn1Decay_on :: "token option \<Rightarrow> Spikeling \<Rightarrow> Spikeling" where
  "Syn1Decay_on arg s = s\<lparr>syn1 := setFloatParam syn_decay_enable_update syn_decay_update (1 / 1000) arg (syn1 s)\<rparr>"

definition Syn1Decay_off :: "Spikeling \<Rightarrow> Spikeling" where
  "Syn1Decay_off s = s\<lparr>syn1 := (syn1 s)\<lparr>syn_decay_enable := True\<rparr>\<rparr>"

definition Syn2Gain_on :: "token option \<Rightarrow> Spikeling \<Rightarrow> Spikeling" where
  "Syn2Gain_on arg s = s\<lparr>syn2 := setFloatParam syn_gain_enable_update syn_gain_update (25 / 100) arg (syn2 s)\<rparr>"

definition Syn2Gain_off :: "Spikeling \<Rightarrow> Spikeling" where
  "Syn2Gain_off s = s\<lparr>syn2 := (syn2 s)\<lparr>syn_gain_enable := True\<rparr>\<rparr>"

definition Syn2Decay_on :: "token option \<Rightarrow> Spikeling \<Rightarrow> Spikeling" where
  "Syn2Decay_on arg s = s\<lparr>syn2 := setFloatParam syn_decay_enable_update syn_decay_update (1 / 1000) arg (syn2 s)\<rparr>"

definition Syn2Decay_off :: "Spikeling \<Rightarrow> Spikeling" where
  "Syn2Decay_off s = s\<lparr>syn2 := (syn2 s)\<lparr>syn_decay_enable := True\<rparr>\<rparr>"

definition Buzzer_on :: "Spikeling \<Rightarrow> Spikeling" where
  "Buzzer_on s = s\<lparr>Buzzer_enable := True\<rparr>"

definition Buzzer_off :: "Spikeling \<Rightarrow> Spikeling" where
  "Buzzer_off s = s\<lparr>Buzzer_enable := False\<rparr>"

definition LED_on :: "Spikeling \<Rightarrow> Spikeling" where
  "LED_on s = s\<lparr>LED_enable := True\<rparr>"

definition LED_off :: "Spikeling \<Rightarrow> Spikeling" where
  "LED_off s = s\<lparr>LED_enable := False\<rparr>"

text \<open>\<open>Connected\<close> only blinks the indicator; \<open>Unrecognized\<close> only prints.\<close>

definition Connected :: "Spikeling \<Rightarrow> Spikeling" where
  "Connected s = s"

definition Unrecognized :: "string \<Rightarrow> Spikeling \<Rightarrow> Spikeling" where
  "Unrecognized cmd s = s"

text \<open>
  \<open>SerialFunctions\<close> registers the handlers; the command parser calls the first one
  registered under the name it read, or the default handler. A handler that reads no
  argument ignores the rest of the line.
\<close>

definition SerialFunctions :: "(string \<times> (token option \<Rightarrow> Spikeling \<Rightarrow> Spikeling option)) list" where
  "SerialFunctions = [
     (''DT'', \<lambda>arg s. Some (SetRefreshRate arg s)),
     (''NEU'', NeuronMode),
     (''FR1'', \<lambda>arg s. Some (StimFre_on arg s)),
     (''FR0'', \<lambda>arg s. Some (StimFre_off s)),
     (''ST1'', \<lambda>arg s. Some (StimStr_on arg s)),
     (''ST0'', \<lambda>arg s. Some (StimStr_off s)),
     (''SC1'', \<lambda>arg s. Some (StimCus_on arg s)),
     (''SC0'', \<lambda>arg s. Some (StimCus_off s)),
     (''TR'', \<lambda>arg s. Some (Serial_Trigger s)),
     (''PG1'', \<lambda>arg s. Some (PDGain_on arg s)),
     (''PG0'', \<lambda>arg s. Some (PDGain_off s)),
     (''PD1'', \<lambda>arg s. Some (PDDecay_on arg s)),
     (''PD0'', \<lambda>arg s. Some (PDDecay_off s)),
     (''PR1'', \<lambda>arg s. Some (PDRecovery_on arg s)),
     (''PR0'', \<lambda>arg s. Some (PDRecovery_off s)),
     (''IC1'', \<lambda>arg s. Some (IC_on arg s)),
     (''IC0'', \<lambda>arg s. Some (IC_off s)),
     (''NO1'', \<lambda>arg s. Some (Noise_on arg s)),
     (''NO0'', \<lambda>arg s. Some (Noise_off s)),
     (''SG11'', \<lambda>arg s. Some (Syn1Gain_on arg s)),
     (''SG10'', \<lambda>arg s. Some (Syn1Gain_off s)),
     (''SD11'', \<lambda>arg s. Some (Syn1Decay_on arg s)),
     (''SD10'', \<lambda>arg s. Some (Syn1Decay_off s)),
     (''SG21'', \<lambda>arg s. Some (Syn2Gain_on arg s)),
     (''SG20'', \<lambda>arg s. Some (Syn2Gain_off s)),
     (''SD21'', \<lambda>arg s. Some (Syn2Decay_on arg s)),
     (''SD20'', \<lambda>arg s. Some (Syn2Decay_off s)),
     (''BZ1'', \<lambda>arg s. Some (Buzzer_on s)),
     (''BZ0'', \<lambda>arg s. Some (Buzzer_off s)),
     (''LED1'', \<lambda>arg s. Some (LED_on s)),
     (''LED0'', \<lambda>arg s. Some (LED_off s)),
     (''CON'', \<lambda>arg s. Some (Connected s))]"

definition serial_command :: "string \<Rightarrow> token option \<Rightarrow> Spikeling \<Rightarrow> Spikeling option" where
  "serial_command cmd arg s =
     (case map_of SerialFunctions cmd of
        Some handler \<Rightarrow> handler arg s
      | None \<Rightarrow> Some (Unrecognized cmd s))"

subsection \<open>Network commands\<close>

definition applyFloat ::
  "((bool \<Rightarrow> bool) \<Rightarrow> 'r \<Rightarrow> 'r) \<Rightarrow> ((real \<Rightarrow> real) \<Rightarrow> 'r \<Rightarrow> 'r) \<Rightarrow> real \<Rightarrow> real \<Rightarrow> 'r \<Rightarrow> 'r" where
  "applyFloat enableFlag param v scale r =
     (let r1 = enableFlag (\<lambda>_. False) r in param (\<lambda>_. v * scale) r1)"

definition applyInt ::
  "((bool \<Rightarrow> bool) \<Rightarrow> 'r \<Rightarrow> 'r) \<Rightarrow> ((int \<Rightarrow> int) \<Rightarrow> 'r \<Rightarrow> 'r) \<Rightarrow> int \<Rightarrow> 'r \<Rightarrow> 'r" where
  "applyInt enableFlag param v r =
     (let r1 = enableFlag (\<lambda>_. False) r in param (\<lambda>_. v) r1)"

text \<open>\<open>dispatchToken\<close>: the chain of tests in the order of the source.\<close>

definition dispatchToken :: "string \<Rightarrow> bool \<Rightarrow> real \<Rightarrow> Spikeling \<Rightarrow> Spikeling option" where
  "dispatchToken cmd hasVal v s =
     (if cmd = ''DT'' \<and> hasVal then
        let val_us = c_trunc v;
            val_us1 = (if val_us < 1000 then 1000 else val_us);
            val_us2 = (if val_us1 > 1000000 then 1000000 else val_us1)
        in Some (s\<lparr>timing := (timing s)\<lparr>step_us := word_of_int val_us2\<rparr>\<rparr>)
      else if cmd = ''NEU'' \<and> hasVal then
        let idx = c_trunc v in SetNeuronModel (clampToModel (to_size_t idx)) s
      else if cmd = ''FR1'' \<and> hasVal then
        Some (s\<lparr>stim := applyInt stim_frequency_enable_update stim_freq_update (c_trunc v) (stim s)\<rparr>)
      else if cmd = ''FR0'' then Some (s\<lparr>stim := (stim s)\<lparr>stim_frequency_enable := True\<rparr>\<rparr>)
      else if cmd = ''ST1'' \<and> hasVal then
        let st1 = (stim s)\<lparr>stim_strength_enable := False\<rparr>;
            val = c_trunc v
        in Some (s\<lparr>stim := st1\<lparr>stim_str_digital := val, stim_str_analog := val\<rparr>\<rparr>)
      else if cmd = ''ST0'' then Some (s\<lparr>stim := (stim s)\<lparr>stim_strength_enable := True\<rparr>\<rparr>)
      else if cmd = ''SC1'' \<and> hasVal then
        Some (s\<lparr>stim := applyInt stim_custom_enable_update stim_value_custom_update (c_trunc v) (stim s)\<rparr>)
      else if cmd = ''SC0'' then Some (s\<lparr>stim := (stim s)\<lparr>stim_custom_enable := True\<rparr>\<rparr>)
      else if cmd = ''TR'' then Some (s\<lparr>stim := (stim s)\<lparr>stim_serialTrigger_enable := True\<rparr>\<rparr>)
      else if cmd = ''PG1'' \<and> hasVal then
        Some (s\<lparr>PD := applyFloat PD_gain_enable_update PD_gain_update v (1 / 10) (PD s)\<rparr>)
      else if cmd = ''PG0'' then Some (s\<lparr>PD := (PD s)\<lparr>PD_gain_enable := True\<rparr>\<rparr>)
      else if cmd = ''PD1'' \<and> hasVal then
        Some (s\<lparr>PD := applyFloat PD_decay_enable_update PD_decay_update v 1 (PD s)\<rparr>)
      else if cmd = ''PD0'' then Some (s\<lparr>PD := (PD s)\<lparr>PD_decay_enable := True\<rparr>\<rparr>)
      else if cmd = ''PR1'' \<and> hasVal then
        Some (s\<lparr>PD := applyFloat PD_recovery_enable_update PD_recovery_update v 1 (PD s)\<rparr>)
      else if cmd = ''PR0'' then Some (s\<lparr>PD := (PD s)\<lparr>PD_recovery_enable := True\<rparr>\<rparr>)
      else if cmd = ''IC1'' \<and> hasVal then
        Some (s\<lparr>IC := applyFloat IC_enable_update IC_current_clamp_update v 1 (IC s)\<rparr>)
      else if cmd = ''IC0'' then Some (s\<lparr>IC := (IC s)\<lparr>IC_enable := True\<rparr>\<rparr>)
      else if cmd = ''NO1'' \<and> hasVal then
        Some (s\<lparr>noise := applyFloat noise_enable_update noise_current_update v 1 (noise s)\<rparr>)
      else if cmd = ''NO0'' then Some (s\<lparr>noise := (noise s)\<lparr>noise_enable := True\<rparr>\<rparr>)
      else if cmd = ''SG11'' \<and> hasVal then
        Some (s\<lparr>syn1 := applyFloat syn_gain_enable_update syn_gain_update v (25 / 100) (syn1 s)\<rparr>)
      else if cmd = ''SG10'' then Some (s\<lparr>syn1 := (syn1 s)\<lparr>syn_gain_enable := True\<rparr>\<rparr>)
      else if cmd = ''SD11'' \<and> hasVal then
        Some (s\<lparr>syn1 := applyFloat syn_decay_enable_update syn_decay_update v (1 / 1000) (syn1 s)\<rparr>)
      else if cmd = ''SD10'' then Some (s\<lparr>syn1 := (syn1 s)\<lparr>syn_decay_enable := True\<rparr>\<rparr>)
      else if cmd = ''SG21'' \<and> hasVal then
        Some (s\<lparr>syn2 := applyFloat syn_gain_enable_update syn_gain_update v (25 / 100) (syn2 s)\<rparr>)
      else if cmd = ''SG20'' then Some (s\<lparr>syn2 := (syn2 s)\<lparr>syn_gain_enable := True\<rparr>\<rparr>)
      else if cmd = ''SD21'' \<and> hasVal then
        Some (s\<lparr>syn2 := applyFloat syn_decay_enable_update syn_decay_update v (1 / 1000) (syn2 s)\<rparr>)
      else if cmd = ''SD20'' then Some (s\<lparr>syn2 := (syn2 s)\<lparr>syn_decay_enable := True\<rparr>\<rparr>)
      else if cmd = ''BZ1'' then Some (Buzzer_on s)
      else if cmd = ''BZ0'' then Some (Buzzer_off s)
      else if cmd = ''LED1'' then Some (LED_on s)
      else if cmd = ''LED0'' then Some (LED_off s)
      else if cmd = ''CON'' then Some (Connected s)
      else Some s)"

subsection \<open>The wording of the specification\<close>








text \<open>
  What the comment of the source and the specification ask of \<open>update_Noise\<close>: the
  Gaussian parameters are recomputed when the new standard deviation differs from the
  stored one by more than \<open>1e-3\<close>.
\<close>

definition sigma_changed_significantly :: "NoiseGenerator \<Rightarrow> bool" where
  "sigma_changed_significantly n = (\<bar>noise_newSigma n - noise_sigma n\<bar> > 1 / 1000)"

text \<open>The command vocabulary: the names registered by \<open>SerialFunctions\<close>.\<close>

definition vocabulary :: "string list" where
  "vocabulary = map fst SerialFunctions"

text \<open>The commands that read a floating argument, and those that read an integer one.\<close>

definition float_commands :: "string list" where
  "float_commands = [''PG1'', ''PD1'', ''PR1'', ''IC1'', ''NO1'', ''SG11'', ''SD11'', ''SG21'',
     ''SD21'']"

definition int_commands :: "string list" where
  "int_commands = [''DT'', ''NEU'', ''FR1'', ''ST1'', ''SC1'']"

text \<open>The set commands that clear an autonomy flag.\<close>

definition flag_set_commands :: "string list" where
  "flag_set_commands = [''FR1'', ''ST1'', ''SC1'', ''PG1'', ''PD1'', ''PR1'', ''IC1'', ''NO1'',
     ''SG11'', ''SD11'', ''SG21'', ''SD21'']"

subsection \<open>What the quantiser computes\<close>





subsection \<open>Invariants\<close>

text \<open>
  The ring buffer of the photodiode: the counter points into the window, the window fits
  the array, and the running sum is the sum of the entries of the window.
\<close>

definition PD_ring_inv :: "Photodiode \<Rightarrow> bool" where
  "PD_ring_inv p =
     (0 \<le> PD_counter p \<and> PD_counter p < PD_avgWindow p
      \<and> nat (PD_avgWindow p) \<le> length (PD_values p)
      \<and> PD_sum p = sum_list (take (nat (PD_avgWindow p)) (PD_values p)))"

text \<open>
  The noise generator keeps the scaling of its declaration, and the standard deviation it
  stores is zero or was derived from a reading of the potentiometer: twice the standard
  deviation times the scaling is a whole number of steps, none negative.
\<close>

definition noise_inv :: "NoiseGenerator \<Rightarrow> bool" where
  "noise_inv n =
     (noise_pot_scaling n = real_of_int bits12 / 25 \<and> 0 \<le> noise_sigma n
      \<and> real_of_int \<lfloor>noise_sigma n * 2 * noise_pot_scaling n\<rfloor>
            = noise_sigma n * 2 * noise_pot_scaling n)"

text \<open>
  The duty-cycle counter is never negative, and once a cycle length of at least one tick
  is in force the trigger flag is pending exactly at the start of a cycle.
\<close>

definition stim_inv :: "Stimulus \<Rightarrow> bool" where
  "stim_inv st =
     (0 \<le> stim_counter st
      \<and> (1 \<le> stim_steps st \<longrightarrow> (stim_trigger_enable st \<longleftrightarrow> stim_counter st = 0)))"

subsection \<open>States and inputs of the examples\<close>

text \<open>A photodiode half adapted, with a manual gain of 1.\<close>

definition half_adapted :: Photodiode where
  "half_adapted = PD_init\<lparr>PD_amp := 1 / 2, PD_gain := 1, PD_gain_enable := False\<rparr>"

text \<open>
  Ten ticks: the photodiode reads 1 five times, then 2 five times; the gain potentiometer
  stays at mid-scale.
\<close>

definition ten_samples :: "(int \<times> int) list" where
  "ten_samples = [(1, 2047), (1, 2047), (1, 2047), (1, 2047), (1, 2047),
                  (2, 2047), (2, 2047), (2, 2047), (2, 2047), (2, 2047)]"

text \<open>A synapse with a manual gain of 1 and a manual decay factor of one half.\<close>

definition manual_synapse :: Synapse where
  "manual_synapse = syn1_init\<lparr>syn_gain := 1, syn_decay := 1 / 2, syn_gain_enable := False,
     syn_decay_enable := False\<rparr>"

definition edge_tick :: SynapseInput where
  "edge_tick = \<lparr>in_digital = HIGH, in_pot = 2047, in_analog = 0\<rparr>"

definition quiet_tick :: SynapseInput where
  "quiet_tick = \<lparr>in_digital = LOW, in_pot = 2047, in_analog = 0\<rparr>"

text \<open>The neuron once preset 0 is selected.\<close>

definition preset0_neuron :: "NeuronModel \<Rightarrow> NeuronModel" where
  "preset0_neuron n = n\<lparr>neuron_a := 2 / 100, neuron_b := 20 / 100, neuron_c := - 65,
     neuron_d := 6, neuron_v_rest := - 70, neuron_v := - 70, neuron_u := (20 / 100) * (- 70)\<rparr>"

text \<open>A stimulus generator at the start of a cycle of three ticks.\<close>

definition cycle_start :: Stimulus where
  "cycle_start = stim_init\<lparr>stim_steps := 3, stim_trigger_enable := True\<rparr>"






text \<open>A random source that returns the variance it is asked to draw with.\<close>

definition show_variance :: "Gaussian \<Rightarrow> real" where
  "show_variance g = variance g"

text \<open>
  The arguments \<open>500\<close> and \<open>3000\<close>, and the argument \<open>1e2\<close>: \<open>atof\<close> reads 100,
  \<open>atoi\<close> stops at the letter and reads 1.
\<close>

definition one_e2 :: token where
  "one_e2 = \<lparr>atof = 100, atoi = 1\<rparr>"


definition five_hundred :: token where
  "five_hundred = \<lparr>atof = 500, atoi = 500\<rparr>"

definition three_thousand :: token where
  "three_thousand = \<lparr>atof = 3000, atoi = 3000\<rparr>"

section \<open>Properties\<close>

subsection \<open>Helper lemmas: manual mode and the ring buffer\<close>

lemma update_InputCurrent_manual:
  "\<not> IC_enable ic \<Longrightarrow> fold update_InputCurrent adcs ic = ic"
  by (induction adcs) (simp_all add: update_InputCurrent_def)

lemma update_Noise_manual:
  "\<not> noise_enable n \<Longrightarrow> fold (\<lambda>(random, adc). update_Noise random adc) xs n = n"
  by (induction xs) (simp_all add: update_Noise_def split: prod.splits)

lemma PD_store_Some:
  assumes "PD_ring_inv p"
  shows "\<exists>p'. PD_store adc p = Some p'"
  using assms by (auto simp: PD_ring_inv_def PD_store_def Let_def)

lemma PD_store_flags:
  assumes "PD_store adc p = Some p'"
  shows "PD_gain p' = PD_gain p \<and> PD_decay p' = PD_decay p \<and> PD_recovery p' = PD_recovery p
    \<and> PD_gain_enable p' = PD_gain_enable p \<and> PD_decay_enable p' = PD_decay_enable p
    \<and> PD_recovery_enable p' = PD_recovery_enable p \<and> PD_amp p' = PD_amp p \<and> PD_ampMin p' = PD_ampMin p"
  using assms by (auto simp: PD_store_def Let_def split: if_splits)

lemma PD_read_gain_fields:
  "PD_decay (PD_read_gain adc p) = PD_decay p"
  "PD_recovery (PD_read_gain adc p) = PD_recovery p"
  "PD_gain_enable (PD_read_gain adc p) = PD_gain_enable p"
  "PD_decay_enable (PD_read_gain adc p) = PD_decay_enable p"
  "PD_recovery_enable (PD_read_gain adc p) = PD_recovery_enable p"
  "PD_amp (PD_read_gain adc p) = PD_amp p"
  "PD_ampMin (PD_read_gain adc p) = PD_ampMin p"
  "PD_counter (PD_read_gain adc p) = PD_counter p"
  "PD_avgWindow (PD_read_gain adc p) = PD_avgWindow p"
  "PD_values (PD_read_gain adc p) = PD_values p"
  "PD_sum (PD_read_gain adc p) = PD_sum p"
  "PD_average (PD_read_gain adc p) = PD_average p"
  "\<not> PD_gain_enable p \<Longrightarrow> PD_gain (PD_read_gain adc p) = PD_gain p"
  by (simp_all add: PD_read_gain_def Let_def)

lemma PD_adapt_fields:
  "PD_gain (PD_adapt p) = PD_gain p"
  "PD_gain_enable (PD_adapt p) = PD_gain_enable p"
  "PD_decay_enable (PD_adapt p) = PD_decay_enable p"
  "PD_recovery_enable (PD_adapt p) = PD_recovery_enable p"
  "PD_ampMin (PD_adapt p) = PD_ampMin p"
  "PD_counter (PD_adapt p) = PD_counter p"
  "PD_avgWindow (PD_adapt p) = PD_avgWindow p"
  "PD_values (PD_adapt p) = PD_values p"
  "PD_sum (PD_adapt p) = PD_sum p"
  "PD_average (PD_adapt p) = PD_average p"
  "\<not> PD_decay_enable p \<Longrightarrow> PD_decay (PD_adapt p) = PD_decay p"
  "\<not> PD_recovery_enable p \<Longrightarrow> PD_recovery (PD_adapt p) = PD_recovery p"
  by (simp_all add: PD_adapt_def PD_decay_step_def PD_recovery_step_def Let_def)


lemma sum_list_update_int:
  fixes xs :: "int list"
  shows "i < length xs \<Longrightarrow> sum_list (xs[i := v]) = sum_list xs - xs ! i + v"
proof (induction xs arbitrary: i)
  case Nil
  then show ?case by simp
next
  case (Cons x xs)
  then show ?case by (cases i) simp_all
qed

lemma sum_list_take_update:
  fixes xs :: "int list"
  assumes "i < n" "n \<le> length xs"
  shows "sum_list (take n (xs[i := v])) = sum_list (take n xs) - xs ! i + v"
proof -
  have "take n (xs[i := v]) = (take n xs)[i := v]"
    by (simp add: take_update_swap)
  moreover have "i < length (take n xs)" using assms by simp
  moreover have "take n xs ! i = xs ! i" using assms by simp
  ultimately show ?thesis by (simp add: sum_list_update_int)
qed

lemma PD_store_ring_inv:
  assumes "PD_ring_inv p"
  shows "\<exists>p'. PD_store adc p = Some p' \<and> PD_ring_inv p'
    \<and> PD_average p' = real_of_int (c_div (sum_list (take (nat (PD_avgWindow p')) (PD_values p'))) (PD_avgWindow p'))"
proof -
  from assms have c: "0 \<le> PD_counter p" "PD_counter p < PD_avgWindow p"
    and w: "nat (PD_avgWindow p) \<le> length (PD_values p)"
    and s: "PD_sum p = sum_list (take (nat (PD_avgWindow p)) (PD_values p))"
    by (simp_all add: PD_ring_inv_def)
  from c w have i: "nat (PD_counter p) < nat (PD_avgWindow p)" by simp
  have upd: "sum_list (take (nat (PD_avgWindow p)) ((PD_values p)[nat (PD_counter p) := adc]))
      = PD_sum p - PD_values p ! nat (PD_counter p) + adc"
    using sum_list_take_update [OF i w] s by simp
  from c w have ok: "\<not> (PD_counter p < 0 \<or> int (length (PD_values p)) \<le> PD_counter p \<or> PD_avgWindow p = 0)"
    by auto
  show ?thesis
    using ok c w upd by (auto simp: PD_store_def PD_ring_inv_def Let_def)
qed

lemma update_Photodiode_ring_inv:
  assumes "PD_ring_inv p"
  shows "\<exists>p'. update_Photodiode a b p = Some p' \<and> PD_ring_inv p'
    \<and> PD_average p' = real_of_int (c_div (sum_list (take (nat (PD_avgWindow p')) (PD_values p'))) (PD_avgWindow p'))"
proof -
  from PD_store_ring_inv [OF assms, of a] obtain p1 where
    p1: "PD_store a p = Some p1" "PD_ring_inv p1"
      "PD_average p1 = real_of_int (c_div (sum_list (take (nat (PD_avgWindow p1)) (PD_values p1))) (PD_avgWindow p1))"
    by blast
  have "PD_ring_inv (PD_adapt (PD_read_gain b p1))"
    using p1(2) by (simp add: PD_ring_inv_def PD_adapt_fields PD_read_gain_fields)
  then show ?thesis
    using p1 by (simp add: update_Photodiode_def PD_adapt_fields PD_read_gain_fields)
qed

lemma run_Photodiode_Some:
  assumes "PD_ring_inv p"
  shows "\<exists>p'. run_Photodiode xs p = Some p' \<and> PD_ring_inv p'"
  using assms
proof (induction xs arbitrary: p)
  case Nil
  then show ?case by simp
next
  case (Cons x xs)
  obtain a b where x: "x = (a, b)" by (cases x)
  from update_Photodiode_ring_inv [OF Cons.prems, of a b] obtain p1 where
    p1: "update_Photodiode a b p = Some p1" "PD_ring_inv p1" by blast
  from Cons.IH [OF p1(2)] show ?case using x p1(1) by simp
qed

lemma update_Photodiode_manual:
  assumes "update_Photodiode a b p = Some p'"
  shows "PD_gain_enable p' = PD_gain_enable p \<and> PD_decay_enable p' = PD_decay_enable p
    \<and> PD_recovery_enable p' = PD_recovery_enable p
    \<and> (\<not> PD_gain_enable p \<longrightarrow> PD_gain p' = PD_gain p)
    \<and> (\<not> PD_decay_enable p \<longrightarrow> PD_decay p' = PD_decay p)
    \<and> (\<not> PD_recovery_enable p \<longrightarrow> PD_recovery p' = PD_recovery p)"
proof -
  from assms obtain p1 where p1: "PD_store a p = Some p1" "p' = PD_adapt (PD_read_gain b p1)"
    by (auto simp: update_Photodiode_def split: option.splits)
  from PD_store_flags [OF p1(1)] show ?thesis
    by (simp add: p1(2) PD_adapt_fields PD_read_gain_fields)
qed

lemma run_Photodiode_manual:
  assumes "run_Photodiode xs p = Some p'"
  shows "PD_gain_enable p' = PD_gain_enable p \<and> PD_decay_enable p' = PD_decay_enable p
    \<and> PD_recovery_enable p' = PD_recovery_enable p
    \<and> (\<not> PD_gain_enable p \<longrightarrow> PD_gain p' = PD_gain p)
    \<and> (\<not> PD_decay_enable p \<longrightarrow> PD_decay p' = PD_decay p)
    \<and> (\<not> PD_recovery_enable p \<longrightarrow> PD_recovery p' = PD_recovery p)"
  using assms
proof (induction xs arbitrary: p)
  case Nil
  then show ?case by simp
next
  case (Cons x xs)
  obtain a b where x: "x = (a, b)" by (cases x)
  from Cons.prems x obtain p1 where
    p1: "update_Photodiode a b p = Some p1" "run_Photodiode xs p1 = Some p'"
    by (auto split: option.splits)
  from update_Photodiode_manual [OF p1(1)] Cons.IH [OF p1(2)] show ?case by simp
qed


lemma update_Synapse_manual:
  "syn_gain_enable (update_Synapse nrn ax dd inp sy) = syn_gain_enable sy"
  "syn_decay_enable (update_Synapse nrn ax dd inp sy) = syn_decay_enable sy"
  "\<not> syn_gain_enable sy \<Longrightarrow> syn_gain (update_Synapse nrn ax dd inp sy) = syn_gain sy"
  "\<not> syn_decay_enable sy \<Longrightarrow> syn_decay (update_Synapse nrn ax dd inp sy) = syn_decay sy"
  by (simp_all add: update_Synapse_def Let_def)

lemma fold_update_Synapse_manual:
  "syn_gain_enable (fold (update_Synapse nrn ax dd) inps sy) = syn_gain_enable sy
   \<and> syn_decay_enable (fold (update_Synapse nrn ax dd) inps sy) = syn_decay_enable sy
   \<and> (\<not> syn_gain_enable sy \<longrightarrow> syn_gain (fold (update_Synapse nrn ax dd) inps sy) = syn_gain sy)
   \<and> (\<not> syn_decay_enable sy \<longrightarrow> syn_decay (fold (update_Synapse nrn ax dd) inps sy) = syn_decay sy)"
proof (induction inps arbitrary: sy)
  case Nil
  then show ?case by simp
next
  case (Cons x xs)
  show ?case using Cons.IH [of "update_Synapse nrn ax dd x sy"]
    by (simp add: update_Synapse_manual)
qed

lemma set_commands:
  "IC (IC_on (Some t) s) = (IC s)\<lparr>IC_enable := False, IC_current_clamp := atof t\<rparr>"
  "noise (Noise_on (Some t) s) = (noise s)\<lparr>noise_enable := False, noise_current := atof t\<rparr>"
  "PD (PDGain_on (Some t) s) = (PD s)\<lparr>PD_gain_enable := False, PD_gain := atof t * (1 / 10)\<rparr>"
  "PD (PDDecay_on (Some t) s) = (PD s)\<lparr>PD_decay_enable := False, PD_decay := atof t\<rparr>"
  "PD (PDRecovery_on (Some t) s) = (PD s)\<lparr>PD_recovery_enable := False, PD_recovery := atof t\<rparr>"
  "syn1 (Syn1Gain_on (Some t) s) = (syn1 s)\<lparr>syn_gain_enable := False, syn_gain := atof t * (25 / 100)\<rparr>"
  "syn1 (Syn1Decay_on (Some t) s) = (syn1 s)\<lparr>syn_decay_enable := False, syn_decay := atof t * (1 / 1000)\<rparr>"
  "syn2 (Syn2Gain_on (Some t) s) = (syn2 s)\<lparr>syn_gain_enable := False, syn_gain := atof t * (25 / 100)\<rparr>"
  "syn2 (Syn2Decay_on (Some t) s) = (syn2 s)\<lparr>syn_decay_enable := False, syn_decay := atof t * (1 / 1000)\<rparr>"
  by (simp_all add: IC_on_def Noise_on_def PDGain_on_def PDDecay_on_def PDRecovery_on_def
      Syn1Gain_on_def Syn1Decay_on_def Syn2Gain_on_def Syn2Decay_on_def
      setFloatParam_def readNextFloat_def)

lemma PD_ring_inv_flags:
  "PD_ring_inv (p\<lparr>PD_gain_enable := e, PD_gain := g\<rparr>) = PD_ring_inv p"
  "PD_ring_inv (p\<lparr>PD_decay_enable := e, PD_decay := g\<rparr>) = PD_ring_inv p"
  "PD_ring_inv (p\<lparr>PD_recovery_enable := e, PD_recovery := g\<rparr>) = PD_ring_inv p"
  by (simp_all add: PD_ring_inv_def)

subsection \<open>Manual values survive the ticks\<close>

text \<open>
  Claim C1. For every conditioning channel (current clamp, noise, photodiode gain, decay
  and recovery, gain and decay of both synapses): a set command with a value stores the
  scaled value and clears the autonomy flag of its target; whatever raw samples the
  following calls of the channel's update function read, and however many calls there
  are, the stored value and the cleared flag are still there afterwards. The paired clear
  command sets the flag again. The photodiode runs from a state whose ring buffer is
  well-formed, so that every tick is defined.
\<close>

theorem manual_value_survives_ticks:
  assumes "PD_ring_inv (PD s)"
  shows "fold update_InputCurrent adcs (IC (IC_on (Some t) s))
           = (IC s)\<lparr>IC_enable := False, IC_current_clamp := atof t\<rparr>
    \<and> fold (\<lambda>(random, adc). update_Noise random adc) ns (noise (Noise_on (Some t) s))
           = (noise s)\<lparr>noise_enable := False, noise_current := atof t\<rparr>
    \<and> (\<exists>p'. run_Photodiode ps (PD (PDGain_on (Some t) s)) = Some p'
           \<and> PD_gain p' = atof t * (1 / 10) \<and> \<not> PD_gain_enable p')
    \<and> (\<exists>p'. run_Photodiode ps (PD (PDDecay_on (Some t) s)) = Some p'
           \<and> PD_decay p' = atof t \<and> \<not> PD_decay_enable p')
    \<and> (\<exists>p'. run_Photodiode ps (PD (PDRecovery_on (Some t) s)) = Some p'
           \<and> PD_recovery p' = atof t \<and> \<not> PD_recovery_enable p')
    \<and> syn_gain (fold (update_Synapse nrn ax dd) inps (syn1 (Syn1Gain_on (Some t) s))) = atof t * (25 / 100)
    \<and> syn_decay (fold (update_Synapse nrn ax dd) inps (syn1 (Syn1Decay_on (Some t) s))) = atof t * (1 / 1000)
    \<and> syn_gain (fold (update_Synapse nrn ax dd) inps (syn2 (Syn2Gain_on (Some t) s))) = atof t * (25 / 100)
    \<and> syn_decay (fold (update_Synapse nrn ax dd) inps (syn2 (Syn2Decay_on (Some t) s))) = atof t * (1 / 1000)
    \<and> IC_enable (IC (IC_off s)) \<and> noise_enable (noise (Noise_off s))
    \<and> PD_gain_enable (PD (PDGain_off s)) \<and> PD_decay_enable (PD (PDDecay_off s))
    \<and> PD_recovery_enable (PD (PDRecovery_off s))
    \<and> syn_gain_enable (syn1 (Syn1Gain_off s)) \<and> syn_decay_enable (syn1 (Syn1Decay_off s))
    \<and> syn_gain_enable (syn2 (Syn2Gain_off s)) \<and> syn_decay_enable (syn2 (Syn2Decay_off s))"
proof -
  have ic: "fold update_InputCurrent adcs (IC (IC_on (Some t) s))
           = (IC s)\<lparr>IC_enable := False, IC_current_clamp := atof t\<rparr>"
    by (simp add: set_commands update_InputCurrent_manual)
  have no: "fold (\<lambda>(random, adc). update_Noise random adc) ns (noise (Noise_on (Some t) s))
           = (noise s)\<lparr>noise_enable := False, noise_current := atof t\<rparr>"
    by (simp add: set_commands update_Noise_manual)
  have pd: "\<exists>p'. run_Photodiode ps q = Some p' \<and> PD_gain_enable p' = PD_gain_enable q
      \<and> PD_decay_enable p' = PD_decay_enable q \<and> PD_recovery_enable p' = PD_recovery_enable q
      \<and> (\<not> PD_gain_enable q \<longrightarrow> PD_gain p' = PD_gain q)
      \<and> (\<not> PD_decay_enable q \<longrightarrow> PD_decay p' = PD_decay q)
      \<and> (\<not> PD_recovery_enable q \<longrightarrow> PD_recovery p' = PD_recovery q)"
    if "PD_ring_inv q" for q
  proof -
    from run_Photodiode_Some [OF that, of ps] obtain p' where p': "run_Photodiode ps q = Some p'"
      by blast
    from run_Photodiode_manual [OF p'] p' show ?thesis by blast
  qed
  have pg: "\<exists>p'. run_Photodiode ps (PD (PDGain_on (Some t) s)) = Some p'
           \<and> PD_gain p' = atof t * (1 / 10) \<and> \<not> PD_gain_enable p'"
    using pd [of "PD (PDGain_on (Some t) s)"] assms
    by (auto simp: set_commands PD_ring_inv_flags)
  have pdd: "\<exists>p'. run_Photodiode ps (PD (PDDecay_on (Some t) s)) = Some p'
           \<and> PD_decay p' = atof t \<and> \<not> PD_decay_enable p'"
    using pd [of "PD (PDDecay_on (Some t) s)"] assms
    by (auto simp: set_commands PD_ring_inv_flags)
  have pr: "\<exists>p'. run_Photodiode ps (PD (PDRecovery_on (Some t) s)) = Some p'
           \<and> PD_recovery p' = atof t \<and> \<not> PD_recovery_enable p'"
    using pd [of "PD (PDRecovery_on (Some t) s)"] assms
    by (auto simp: set_commands PD_ring_inv_flags)
  have sy: "syn_gain (fold (update_Synapse nrn ax dd) inps (syn1 (Syn1Gain_on (Some t) s))) = atof t * (25 / 100)"
    "syn_decay (fold (update_Synapse nrn ax dd) inps (syn1 (Syn1Decay_on (Some t) s))) = atof t * (1 / 1000)"
    "syn_gain (fold (update_Synapse nrn ax dd) inps (syn2 (Syn2Gain_on (Some t) s))) = atof t * (25 / 100)"
    "syn_decay (fold (update_Synapse nrn ax dd) inps (syn2 (Syn2Decay_on (Some t) s))) = atof t * (1 / 1000)"
    by (simp_all add: set_commands fold_update_Synapse_manual)
  have off: "IC_enable (IC (IC_off s))" "noise_enable (noise (Noise_off s))"
    "PD_gain_enable (PD (PDGain_off s))" "PD_decay_enable (PD (PDDecay_off s))"
    "PD_recovery_enable (PD (PDRecovery_off s))"
    "syn_gain_enable (syn1 (Syn1Gain_off s))" "syn_decay_enable (syn1 (Syn1Decay_off s))"
    "syn_gain_enable (syn2 (Syn2Gain_off s))" "syn_decay_enable (syn2 (Syn2Decay_off s))"
    by (simp_all add: IC_off_def Noise_off_def PDGain_off_def PDDecay_off_def PDRecovery_off_def
        Syn1Gain_off_def Syn1Decay_off_def Syn2Gain_off_def Syn2Decay_off_def)
  from ic no pg pdd pr sy off show ?thesis by blast
qed

theorem manual_value_survives_ticks_witness:
  "PD_ring_inv (PD Spikeling_init)
   \<and> IC_current_clamp (fold update_InputCurrent [0, 4095]
        (IC (IC_on (Some \<lparr>atof = 120, atoi = 120\<rparr>) Spikeling_init))) = 120
   \<and> \<not> IC_enable (fold update_InputCurrent [0, 4095]
        (IC (IC_on (Some \<lparr>atof = 120, atoi = 120\<rparr>) Spikeling_init)))
   \<and> syn_gain (fold (update_Synapse neuron_init axon_init (995 / 1000))
        [\<lparr>in_digital = 1, in_pot = 4095, in_analog = 100\<rparr>]
        (syn1 (Syn1Gain_on (Some \<lparr>atof = 120, atoi = 120\<rparr>) Spikeling_init))) = 30"
proof -
  have h: "PD_ring_inv (PD Spikeling_init)"
    by (simp add: PD_ring_inv_def Spikeling_init_def PD_init_def PD_WindowSize_def
        sum_list_replicate)
  from manual_value_survives_ticks [OF h, where adcs = "[0, 4095]"
      and t = "\<lparr>atof = 120, atoi = 120\<rparr>" and nrn = neuron_init and ax = axon_init
      and dd = "995 / 1000" and inps = "[\<lparr>in_digital = 1, in_pot = 4095, in_analog = 100\<rparr>]"]
  show ?thesis using h by simp
qed

subsection \<open>The adaptive amplitude of the photodiode\<close>

lemmas PD_eval = update_Photodiode_def PD_store_def PD_init_def PD_WindowSize_def Let_def c_div_def
     PD_adapt_def PD_decay_step_def PD_recovery_step_def PD_read_gain_def bits12_def pot_offset_def

lemma PD_decay_step_amp:
  "0 < PD_current (PD_decay_step r) \<and> PD_polarity (PD_decay_step r) = 1 \<and> 0 \<le> PD_decay (PD_decay_step r)
     \<longrightarrow> PD_amp (PD_decay_step r) \<le> PD_amp r"
  "PD_ampMin r \<le> PD_amp r \<longrightarrow> PD_ampMin r \<le> PD_amp (PD_decay_step r)"
  "real_of_int (PD_polarity (PD_decay_step r)) * PD_decay (PD_decay_step r) * PD_current (PD_decay_step r) = 0
     \<longrightarrow> PD_amp (PD_decay_step r) = PD_amp r"
  "PD_ampMin (PD_decay_step r) = PD_ampMin r"
  unfolding PD_decay_step_def Let_def by (auto split: if_splits)

lemma PD_recovery_step_amp:
  "PD_amp (PD_recovery_step q)
     = (if PD_amp q < 1 then PD_amp q + PD_recovery (PD_recovery_step q) else PD_amp q)"
  "PD_ampMin (PD_recovery_step q) = PD_ampMin q"
  "PD_current (PD_recovery_step q) = PD_current q"
  "PD_polarity (PD_recovery_step q) = PD_polarity q"
  "PD_decay (PD_recovery_step q) = PD_decay q"
  by (simp_all add: PD_recovery_step_def Let_def)

text \<open>
  Under light, with a positive gain, the amplitude can rise over a tick: the recovery is
  added in the same tick as the decay is subtracted. Here the current is \<open>10/9\<close>, the
  polarity 1, and the amplitude goes from \<open>1/2\<close> to \<open>943/1800\<close>.
\<close>

theorem photodiode_amp_rises_under_light:
  "PD_amp half_adapted = 1 / 2
   \<and> map_option PD_amp (update_Photodiode 10 0 half_adapted) = Some (943 / 1800)
   \<and> map_option PD_current (update_Photodiode 10 0 half_adapted) = Some (10 / 9)
   \<and> map_option PD_polarity (update_Photodiode 10 0 half_adapted) = Some 1
   \<and> \<not> (943 / 1800 \<le> PD_amp half_adapted)"
  by (simp add: half_adapted_def PD_eval)

text \<open>
  Claim C9, as the code has it. A tick on a well-formed ring buffer is defined. Its decay
  step does not raise the amplitude while the current is positive, the polarity positive
  and the decay factor not negative, and leaves it at or above \<open>ampMin\<close> when it was
  there before; its recovery step then adds \<open>recovery\<close> whenever the amplitude is below
  1 after the decay step. Over the whole tick the amplitude is therefore non-increasing
  under light when it is still at least 1 after the decay step, and rises by at most
  \<open>recovery\<close> otherwise; it stays at or above \<open>ampMin\<close> when the recovery is not
  negative; and below 1, with a decay term of zero, it rises by exactly \<open>recovery\<close>.
\<close>

theorem photodiode_amp_tick:
  assumes "PD_ring_inv p"
  shows "\<exists>q p'. PD_before_recovery a b p = Some q \<and> update_Photodiode a b p = Some p'
    \<and> p' = PD_recovery_step q
    \<and> (0 < PD_current p' \<and> PD_polarity p' = 1 \<and> 0 \<le> PD_decay p' \<longrightarrow> PD_amp q \<le> PD_amp p)
    \<and> (PD_ampMin p \<le> PD_amp p \<longrightarrow> PD_ampMin p \<le> PD_amp q)
    \<and> PD_amp p' = (if PD_amp q < 1 then PD_amp q + PD_recovery p' else PD_amp q)
    \<and> (0 < PD_current p' \<and> PD_polarity p' = 1 \<and> 0 \<le> PD_decay p' \<and> 1 \<le> PD_amp q
          \<longrightarrow> PD_amp p' \<le> PD_amp p)
    \<and> (0 < PD_current p' \<and> PD_polarity p' = 1 \<and> 0 \<le> PD_decay p' \<and> 0 \<le> PD_recovery p'
          \<longrightarrow> PD_amp p' \<le> PD_amp p + PD_recovery p')
    \<and> (PD_ampMin p \<le> PD_amp p \<and> 0 \<le> PD_recovery p' \<longrightarrow> PD_ampMin p' \<le> PD_amp p')
    \<and> (PD_amp p < 1 \<and> real_of_int (PD_polarity p') * PD_decay p' * PD_current p' = 0
          \<and> 0 \<le> PD_recovery p' \<longrightarrow> PD_amp p \<le> PD_amp p' \<and> PD_amp p' = PD_amp p + PD_recovery p')"
proof -
  from PD_store_ring_inv [OF assms, of a] obtain p1 where p1: "PD_store a p = Some p1"
    by blast
  from PD_store_flags [OF p1] have f: "PD_amp p1 = PD_amp p" "PD_ampMin p1 = PD_ampMin p"
    by simp_all
  define r where "r = PD_read_gain b p1"
  define q where "q = PD_decay_step r"
  define p' where "p' = PD_recovery_step q"
  have r: "PD_amp r = PD_amp p" "PD_ampMin r = PD_ampMin p"
    by (simp_all add: r_def PD_read_gain_fields f)
  have mid: "PD_before_recovery a b p = Some q"
    by (simp add: PD_before_recovery_def p1 q_def r_def)
  have upd: "update_Photodiode a b p = Some p'"
    by (simp add: update_Photodiode_def p1 PD_adapt_def p'_def q_def r_def)
  have same: "PD_current p' = PD_current q" "PD_polarity p' = PD_polarity q"
    "PD_decay p' = PD_decay q" "PD_ampMin p' = PD_ampMin p"
    by (simp_all add: p'_def PD_recovery_step_amp q_def PD_decay_step_amp r)
  have d1: "0 < PD_current p' \<and> PD_polarity p' = 1 \<and> 0 \<le> PD_decay p' \<longrightarrow> PD_amp q \<le> PD_amp p"
    using PD_decay_step_amp(1) [of r] by (simp add: same q_def r)
  have d2: "PD_ampMin p \<le> PD_amp p \<longrightarrow> PD_ampMin p \<le> PD_amp q"
    using PD_decay_step_amp(2) [of r] by (simp add: q_def r)
  have d3: "real_of_int (PD_polarity p') * PD_decay p' * PD_current p' = 0 \<longrightarrow> PD_amp q = PD_amp p"
    using PD_decay_step_amp(3) [of r] by (simp add: same q_def r)
  have rec: "PD_amp p' = (if PD_amp q < 1 then PD_amp q + PD_recovery p' else PD_amp q)"
    unfolding p'_def by (rule PD_recovery_step_amp(1))
  have c1: "0 < PD_current p' \<and> PD_polarity p' = 1 \<and> 0 \<le> PD_decay p' \<and> 1 \<le> PD_amp q
          \<longrightarrow> PD_amp p' \<le> PD_amp p"
    using d1 rec by auto
  have c2: "0 < PD_current p' \<and> PD_polarity p' = 1 \<and> 0 \<le> PD_decay p' \<and> 0 \<le> PD_recovery p'
          \<longrightarrow> PD_amp p' \<le> PD_amp p + PD_recovery p'"
    using d1 rec by auto
  have c3: "PD_ampMin p \<le> PD_amp p \<and> 0 \<le> PD_recovery p' \<longrightarrow> PD_ampMin p' \<le> PD_amp p'"
    using d2 rec same(4) by auto
  have c4: "PD_amp p < 1 \<and> real_of_int (PD_polarity p') * PD_decay p' * PD_current p' = 0
          \<and> 0 \<le> PD_recovery p' \<longrightarrow> PD_amp p \<le> PD_amp p' \<and> PD_amp p' = PD_amp p + PD_recovery p'"
    using d3 rec by auto
  show ?thesis
    by (rule exI [of _ q], rule exI [of _ p']) (intro conjI mid upd p'_def d1 d2 rec c1 c2 c3 c4)
qed

theorem photodiode_amp_tick_witness:
  "PD_ring_inv half_adapted
   \<and> PD_before_recovery 10 0 half_adapted \<noteq> None
   \<and> update_Photodiode 10 0 half_adapted \<noteq> None"
proof -
  have h: "PD_ring_inv half_adapted"
    by (simp add: PD_ring_inv_def half_adapted_def PD_init_def PD_WindowSize_def sum_list_replicate)
  from photodiode_amp_tick [OF h, of 10 0] show ?thesis using h by blast
qed

subsection \<open>The moving average of the photodiode\<close>

text \<open>
  Every tick keeps the ring buffer well-formed (\<open>update_Photodiode_ring_inv\<close>), and the
  average it stores is the quotient of the integer division of the running sum by the
  window.
\<close>

text \<open>
  Claim C10, at ten samples 1, 1, 1, 1, 1, 2, 2, 2, 2, 2 read from the initial state: the
  buffer holds the ten samples and the running sum is 15, their sum; the stored average
  is 1, where the arithmetic mean of the ten samples is 1.5.
\<close>

theorem photodiode_average_truncates:
  "map_option PD_values (run_Photodiode ten_samples PD_init) = Some [1, 1, 1, 1, 1, 2, 2, 2, 2, 2]
   \<and> map_option PD_sum (run_Photodiode ten_samples PD_init) = Some 15
   \<and> map_option PD_average (run_Photodiode ten_samples PD_init) = Some 1"
  by (simp add: ten_samples_def PD_eval eval_nat_numeral)

subsection \<open>The synaptic trace\<close>

lemma update_Synapse_current:
  assumes "\<not> syn_decay_enable sy"
  shows "syn_current (update_Synapse nrn ax dd inp sy)
     = (if in_digital inp = HIGH
        then (syn_current sy + syn_gain (update_Synapse nrn ax dd inp sy)) * syn_decay sy
        else syn_current sy * syn_decay sy)"
  using assms by (simp add: update_Synapse_def Let_def)

lemma decay_only_run:
  assumes "\<not> syn_decay_enable sy" and "\<forall>x \<in> set xs. in_digital x \<noteq> HIGH"
  shows "syn_current (fold (update_Synapse nrn ax dd) xs sy) = syn_current sy * syn_decay sy ^ length xs"
  using assms
proof (induction xs arbitrary: sy)
  case Nil
  then show ?case by simp
next
  case (Cons x xs)
  let ?s = "update_Synapse nrn ax dd x sy"
  have 1: "\<not> syn_decay_enable ?s" "syn_decay ?s = syn_decay sy"
    using Cons.prems(1) by (simp_all add: update_Synapse_manual)
  have 2: "syn_current ?s = syn_current sy * syn_decay sy"
    using Cons.prems by (simp add: update_Synapse_current)
  from Cons.IH [of ?s] 1 2 Cons.prems(2) show ?case by simp
qed

text \<open>
  The tick that detects the edge already decays the current: with a gain of 1 and a decay
  factor of one half, the current after the edge tick alone is one half, not 1.
\<close>

theorem synapse_trace_off_by_one:
  "syn_current manual_synapse = 0
   \<and> syn_current (fold (update_Synapse neuron_init axon_init (995 / 1000)) [edge_tick] manual_synapse) = 1 / 2
   \<and> syn_gain manual_synapse * syn_decay manual_synapse ^ 0 = 1
   \<and> syn_current (fold (update_Synapse neuron_init axon_init (995 / 1000)) [edge_tick] manual_synapse)
        \<noteq> syn_gain manual_synapse * syn_decay manual_synapse ^ length ([] :: SynapseInput list)"
  by (simp add: manual_synapse_def syn1_init_def edge_tick_def update_Synapse_def Let_def HIGH_def LOW_def)

text \<open>
  Claim C6, as the code has it. A synapse with manual gain \<open>g\<close> and manual decay factor
  \<open>d\<close>, starting from a current of zero: after one tick with a high edge and \<open>n\<close>
  further ticks without an edge the current is \<open>g * d ^ (n + 1)\<close>, since every tick,
  the edge tick included, multiplies the current by \<open>d\<close>.
\<close>

theorem synapse_trace:
  assumes "\<not> syn_gain_enable sy" and "\<not> syn_decay_enable sy" and "syn_current sy = 0"
    and "in_digital e = HIGH" and "\<forall>x \<in> set xs. in_digital x \<noteq> HIGH"
  shows "syn_current (fold (update_Synapse nrn ax dd) (e # xs) sy)
     = syn_gain sy * syn_decay sy ^ (length xs + 1)"
proof -
  let ?s = "update_Synapse nrn ax dd e sy"
  have 1: "\<not> syn_decay_enable ?s" "syn_decay ?s = syn_decay sy" "syn_gain ?s = syn_gain sy"
    using assms(1,2) by (simp_all add: update_Synapse_manual)
  have 2: "syn_current ?s = syn_gain sy * syn_decay sy"
    using assms(2,3,4) 1(3) by (simp add: update_Synapse_current)
  from decay_only_run [OF 1(1) assms(5), of nrn ax dd] 1 2 show ?thesis by simp
qed

theorem synapse_trace_witness:
  "\<not> syn_gain_enable manual_synapse \<and> \<not> syn_decay_enable manual_synapse
   \<and> syn_current manual_synapse = 0 \<and> in_digital edge_tick = HIGH
   \<and> in_digital quiet_tick \<noteq> HIGH
   \<and> syn_current (fold (update_Synapse neuron_init axon_init (995 / 1000))
        [edge_tick, quiet_tick, quiet_tick] manual_synapse) = 1 / 8"
proof -
  have h: "\<not> syn_gain_enable manual_synapse" "\<not> syn_decay_enable manual_synapse"
    "syn_current manual_synapse = 0" "in_digital edge_tick = HIGH"
    "\<forall>x \<in> set [quiet_tick, quiet_tick]. in_digital x \<noteq> HIGH"
    by (simp_all add: manual_synapse_def syn1_init_def edge_tick_def quiet_tick_def HIGH_def LOW_def)
  have g: "syn_gain manual_synapse = 1" "syn_decay manual_synapse = 1 / 2"
    by (simp_all add: manual_synapse_def)
  from synapse_trace [OF h, of neuron_init axon_init "995 / 1000"] h g
  show ?thesis by (simp add: power3_eq_cube)
qed

subsection \<open>Selecting a preset\<close>

lemma IzhikevichModelCount_eq: "IzhikevichModelCount = 20"
  by (simp add: IzhikevichModelCount_def model_index_def models_def)

lemma length_izhikevich: "length izhikevich = IzhikevichModelCount"
  by (simp add: IzhikevichModelCount_eq izhikevich_def)

lemma clampToModel_ge: "IzhikevichModelCount \<le> i \<Longrightarrow> clampToModel i = TonicSpiking"
  by (simp add: clampToModel_def models_def)

lemma clampToModel_0: "clampToModel 0 = TonicSpiking"
  by (simp add: clampToModel_def models_def IzhikevichModelCount_eq)

lemma SetNeuronModel_TonicSpiking:
  "SetNeuronModel TonicSpiking s
     = Some (s\<lparr>currentModel := TonicSpiking, neuron := preset0_neuron (neuron s)\<rparr>)"
  by (simp add: SetNeuronModel_def getIzhikevichParams_def model_index_def models_def
      izhikevich_def mk_params_def preset0_neuron_def Let_def)

text \<open>
  Claim C7. For every index at or beyond the size of the table, \<open>clampToModel\<close> yields
  a model inside the table, and selecting it is selecting preset 0: the five parameters
  of entry 0 are copied into the neuron together, \<open>v\<close> is reset to the resting potential
  of the entry and \<open>u\<close> to \<open>b\<close> times that resting potential.
\<close>

theorem preset_index_clamped:
  assumes "IzhikevichModelCount \<le> i"
  shows "model_index (clampToModel i) < IzhikevichModelCount
    \<and> SetNeuronModel (clampToModel i) s = SetNeuronModel (clampToModel 0) s
    \<and> (\<exists>s'. SetNeuronModel (clampToModel i) s = Some s'
         \<and> currentModel s' = clampToModel 0
         \<and> neuron_a (neuron s') = p_a (izhikevich ! 0)
         \<and> neuron_b (neuron s') = p_b (izhikevich ! 0)
         \<and> neuron_c (neuron s') = p_c (izhikevich ! 0)
         \<and> neuron_d (neuron s') = p_d (izhikevich ! 0)
         \<and> neuron_v_rest (neuron s') = p_v_rest (izhikevich ! 0)
         \<and> neuron_v (neuron s') = p_v_rest (izhikevich ! 0)
         \<and> neuron_u (neuron s') = p_b (izhikevich ! 0) * p_v_rest (izhikevich ! 0))"
proof -
  have 1: "model_index (clampToModel i) < IzhikevichModelCount"
    by (simp add: clampToModel_ge [OF assms] IzhikevichModelCount_eq model_index_def models_def)
  have 2: "SetNeuronModel (clampToModel i) s = SetNeuronModel (clampToModel 0) s"
    by (simp add: clampToModel_ge [OF assms] clampToModel_0)
  have 3: "SetNeuronModel (clampToModel i) s
     = Some (s\<lparr>currentModel := TonicSpiking, neuron := preset0_neuron (neuron s)\<rparr>)"
    by (simp add: clampToModel_ge [OF assms] SetNeuronModel_TonicSpiking)
  have 4: "p_a (izhikevich ! 0) = 2 / 100" "p_b (izhikevich ! 0) = 20 / 100"
    "p_c (izhikevich ! 0) = - 65" "p_d (izhikevich ! 0) = 6" "p_v_rest (izhikevich ! 0) = - 70"
    by (simp_all add: izhikevich_def mk_params_def)
  have 5: "\<exists>s'. SetNeuronModel (clampToModel i) s = Some s'
         \<and> currentModel s' = clampToModel 0
         \<and> neuron_a (neuron s') = p_a (izhikevich ! 0)
         \<and> neuron_b (neuron s') = p_b (izhikevich ! 0)
         \<and> neuron_c (neuron s') = p_c (izhikevich ! 0)
         \<and> neuron_d (neuron s') = p_d (izhikevich ! 0)
         \<and> neuron_v_rest (neuron s') = p_v_rest (izhikevich ! 0)
         \<and> neuron_v (neuron s') = p_v_rest (izhikevich ! 0)
         \<and> neuron_u (neuron s') = p_b (izhikevich ! 0) * p_v_rest (izhikevich ! 0)"
    unfolding 3 by (simp add: 4 clampToModel_0 preset0_neuron_def)
  show ?thesis by (intro conjI 1 2 5)
qed

theorem preset_index_clamped_witness:
  "IzhikevichModelCount \<le> 25
   \<and> SetNeuronModel (clampToModel 25) Spikeling_init = SetNeuronModel (clampToModel 0) Spikeling_init
   \<and> model_index (clampToModel 25) < IzhikevichModelCount"
proof -
  have h: "IzhikevichModelCount \<le> 25" by (simp add: IzhikevichModelCount_eq)
  from preset_index_clamped [OF h, of Spikeling_init] h show ?thesis by blast
qed

subsection \<open>The trigger of the stimulus generator\<close>

lemma stim_read_pots_fields:
  "stim_counter (stim_read_pots a b st) = stim_counter st"
  "stim_steps (stim_read_pots a b st) = stim_steps st"
  "stim_trigger_enable (stim_read_pots a b st) = stim_trigger_enable st"
  "stim_custom_enable (stim_read_pots a b st) = stim_custom_enable st"
  by (simp_all add: stim_read_pots_def Let_def)

lemma stim_auto_fields:
  "stim_custom_enable (stim_auto st) = stim_custom_enable st"
  "stim_trigger (stim_auto st) = (if stim_trigger_enable st then 1 else 0)"
  "stim_counter st + 1 \<ge> stim_steps st \<Longrightarrow> stim_counter (stim_auto st) = 0"
  "stim_counter st + 1 \<ge> stim_steps st \<Longrightarrow> stim_trigger_enable (stim_auto st)"
  "\<not> stim_counter st + 1 \<ge> stim_steps st \<Longrightarrow> stim_counter (stim_auto st) = stim_counter st + 1"
  "\<not> stim_counter st + 1 \<ge> stim_steps st \<Longrightarrow> \<not> stim_trigger_enable (stim_auto st)"
  "\<not> stim_counter st + 1 \<ge> stim_steps st \<Longrightarrow> stim_steps (stim_auto st) = stim_steps st"
  by (simp_all add: stim_auto_def Let_def)

lemma stim_custom_fields:
  "stim_counter (stim_custom st) = stim_counter st"
  "stim_steps (stim_custom st) = stim_steps st"
  "stim_trigger_enable (stim_custom st) = stim_trigger_enable st"
  "stim_custom_enable (stim_custom st) = stim_custom_enable st"
  by (simp_all add: stim_custom_def Let_def)

lemma update_StimulusOutput_auto:
  assumes "stim_custom_enable st"
  shows "stim_custom_enable (update_StimulusOutput adc st)"
    "stim_trigger (update_StimulusOutput adc st) = (if stim_trigger_enable st then 1 else 0)"
    "stim_counter st + 1 \<ge> stim_steps st \<Longrightarrow> stim_counter (update_StimulusOutput adc st) = 0"
    "stim_counter st + 1 \<ge> stim_steps st \<Longrightarrow> stim_trigger_enable (update_StimulusOutput adc st)"
    "\<not> stim_counter st + 1 \<ge> stim_steps st \<Longrightarrow> stim_counter (update_StimulusOutput adc st) = stim_counter st + 1"
    "\<not> stim_counter st + 1 \<ge> stim_steps st \<Longrightarrow> \<not> stim_trigger_enable (update_StimulusOutput adc st)"
    "\<not> stim_counter st + 1 \<ge> stim_steps st \<Longrightarrow> stim_steps (update_StimulusOutput adc st) = stim_steps st"
  using assms
  by (simp_all add: update_StimulusOutput_def Let_def stim_read_pots_fields stim_auto_fields)

lemma stim_inv_init: "stim_inv stim_init"
  by (simp add: stim_inv_def stim_init_def)

lemma stim_inv_tick:
  assumes "stim_inv st"
  shows "stim_inv (update_StimulusOutput adc st)"
proof (cases "stim_custom_enable st")
  case True
  from assms have c: "0 \<le> stim_counter st" by (simp add: stim_inv_def)
  show ?thesis
  proof (cases "stim_counter st + 1 \<ge> stim_steps st")
    case w: True
    show ?thesis
      using update_StimulusOutput_auto(3,4) [OF True w, of adc] by (simp add: stim_inv_def)
  next
    case w: False
    show ?thesis
      using update_StimulusOutput_auto(5,6) [OF True w, of adc] c by (simp add: stim_inv_def)
  qed
next
  case False
  then show ?thesis using assms
    by (simp add: update_StimulusOutput_def Let_def stim_read_pots_fields stim_custom_fields stim_inv_def)
qed

lemma rest_of_cycle:
  assumes "stim_custom_enable st" and "\<not> stim_trigger_enable st"
    and "stim_counter st < stim_steps st"
    and "int (length adcs) = stim_steps st - stim_counter st"
  shows "map stim_trigger (run_Stimulus adcs st) = replicate (length adcs) 0
    \<and> stim_counter (last (run_Stimulus adcs st)) = 0
    \<and> stim_trigger_enable (last (run_Stimulus adcs st))
    \<and> stim_custom_enable (last (run_Stimulus adcs st))"
  using assms
proof (induction adcs arbitrary: st)
  case Nil
  then show ?case by simp
next
  case (Cons a as)
  let ?st = "update_StimulusOutput a st"
  note u = update_StimulusOutput_auto [OF Cons.prems(1), of a]
  have t: "stim_trigger ?st = 0" using u(2) Cons.prems(2) by simp
  show ?case
  proof (cases "as = []")
    case True
    with Cons.prems(4) have w: "stim_counter st + 1 \<ge> stim_steps st" by simp
    from u(1) u(3) [OF w] u(4) [OF w] t True show ?thesis by (simp add: Let_def)
  next
    case False
    then have "1 \<le> int (length as)" by (cases as) simp_all
    moreover have "1 + int (length as) = stim_steps st - stim_counter st"
      using Cons.prems(4) by simp
    ultimately have w: "\<not> stim_counter st + 1 \<ge> stim_steps st" by linarith
    have p: "stim_custom_enable ?st" "\<not> stim_trigger_enable ?st"
      "stim_counter ?st < stim_steps ?st"
      "int (length as) = stim_steps ?st - stim_counter ?st"
      using u(1) u(5) [OF w] u(6) [OF w] u(7) [OF w] w Cons.prems(4) by simp_all
    have ne: "run_Stimulus as ?st \<noteq> []" using False by (cases as) (simp_all add: Let_def)
    from Cons.IH [OF p] t ne show ?thesis by (simp add: Let_def)
  qed
qed

text \<open>
  Claim C8. In auto mode (\<open>stim.custom_enable\<close> holds: custom mode is disabled), take a
  state the generator can be in (\<open>stim_inv\<close> holds initially and after every tick) at
  the start of a cycle, the counter at 0 and \<open>steps\<close> at least 1, and run the \<open>steps\<close>
  ticks of the cycle, whatever the potentiometers read. The trigger is 1 on the first
  tick and 0 on every other tick of the cycle, and the cycle ends with the counter back
  at 0, in auto mode, the next trigger pending.
\<close>

theorem trigger_once_per_cycle:
  assumes "stim_inv st" and "stim_custom_enable st" and "stim_counter st = 0"
    and "1 \<le> stim_steps st" and "int (length adcs) = stim_steps st"
  shows "map stim_trigger (run_Stimulus adcs st) = 1 # replicate (length adcs - 1) 0
    \<and> stim_counter (last (run_Stimulus adcs st)) = 0
    \<and> stim_trigger_enable (last (run_Stimulus adcs st))
    \<and> stim_custom_enable (last (run_Stimulus adcs st))"
proof -
  from assms(1,3,4) have te: "stim_trigger_enable st" by (simp add: stim_inv_def)
  from assms(4,5) obtain a as where adcs: "adcs = a # as" by (cases adcs) auto
  let ?st = "update_StimulusOutput a st"
  note u = update_StimulusOutput_auto [OF assms(2), of a]
  have t: "stim_trigger ?st = 1" using u(2) te by simp
  show ?thesis
  proof (cases "as = []")
    case True
    with assms(3,5) adcs have w: "stim_counter st + 1 \<ge> stim_steps st" by simp
    from u(1) u(3) [OF w] u(4) [OF w] t True adcs show ?thesis by (simp add: Let_def)
  next
    case False
    then have "1 \<le> int (length as)" by (cases as) simp_all
    moreover have "1 + int (length as) = stim_steps st"
      using assms(5) adcs by simp
    ultimately have w: "\<not> stim_counter st + 1 \<ge> stim_steps st"
      using assms(3) by linarith
    have p: "stim_custom_enable ?st" "\<not> stim_trigger_enable ?st"
      "stim_counter ?st < stim_steps ?st"
      "int (length as) = stim_steps ?st - stim_counter ?st"
      using u(1) u(5) [OF w] u(6) [OF w] u(7) [OF w] w assms(3,5) adcs by simp_all
    have ne: "run_Stimulus as ?st \<noteq> []" using False by (cases as) (simp_all add: Let_def)
    from rest_of_cycle [OF p] t ne adcs show ?thesis by (simp add: Let_def)
  qed
qed

theorem trigger_once_per_cycle_witness:
  "stim_inv cycle_start \<and> stim_custom_enable cycle_start \<and> stim_counter cycle_start = 0
   \<and> 1 \<le> stim_steps cycle_start \<and> stim_steps cycle_start = 3
   \<and> map stim_trigger (run_Stimulus [(2047, 2047), (0, 4095), (4095, 0)] cycle_start) = [1, 0, 0]"
proof -
  have h: "stim_inv cycle_start" "stim_custom_enable cycle_start" "stim_counter cycle_start = 0"
    "1 \<le> stim_steps cycle_start"
    "int (length [(2047, 2047), (0, 4095), (4095, 0 :: int)]) = stim_steps cycle_start"
    by (simp_all add: stim_inv_def cycle_start_def stim_init_def)
  from trigger_once_per_cycle [OF h] h show ?thesis by (simp add: cycle_start_def)
qed

subsection \<open>Binary32 rounding\<close>

text \<open>
  \<open>fl32\<close> leaves a number with at most 24 significant bits as it is, and never
  carries a number across a point of the grid it rounds to.
\<close>

lemma pow2_powr: "pow2 e = 2 powr (real_of_int e)"
proof (cases "0 \<le> e")
  case True
  have "(2::real) powr real (nat e) = 2 ^ nat e"
    by (rule powr_realpow) simp
  moreover have "real (nat e) = real_of_int e" using True by simp
  ultimately have "(2::real) powr real_of_int e = 2 ^ nat e" by (simp only:)
  with True show ?thesis by (simp only: pow2_def if_True)
next
  case False
  have "(2::real) powr real (nat (- e)) = 2 ^ nat (- e)"
    by (rule powr_realpow) simp
  moreover have "real (nat (- e)) = - real_of_int e" using False by simp
  ultimately have "(2::real) powr (- real_of_int e) = 2 ^ nat (- e)" by (simp only:)
  then have "(2::real) powr real_of_int e = 1 / 2 ^ nat (- e)"
    using powr_minus_divide [of 2 "- real_of_int e"] by (simp only: minus_minus)
  with False show ?thesis by (simp only: pow2_def if_False)
qed


lemma pow2_pos: "0 < pow2 e"
  by (simp only: pow2_powr) simp






lemma expo_ge: "- 126 \<le> expo a"
  by (simp add: expo_def)














subsection \<open>The telemetry frame\<close>



















subsection \<open>The noise generator\<close>

text \<open>The test of the source holds as soon as the two standard deviations differ at all.\<close>

lemma sigma_changed_iff: "sigma_changed n \<longleftrightarrow> noise_newSigma n \<noteq> noise_sigma n"
  by (simp add: sigma_changed_def)

text \<open>
  With the scaling as shipped, \<open>bits12 / 25\<close>, two different readings of the
  potentiometer give standard deviations more than \<open>1e-3\<close> apart: between two such
  readings the test of the source and the test on the difference agree.
\<close>

lemma shipped_scaling_steps:
  fixes a b :: int
  assumes "a \<noteq> b"
  shows "\<bar>(1 / 2) * (real_of_int (a - pot_offset) / (real_of_int bits12 / 25))
          - (1 / 2) * (real_of_int (b - pot_offset) / (real_of_int bits12 / 25))\<bar> > 1 / 1000"
proof -
  from assms have "1 \<le> \<bar>a - b\<bar>" by simp
  then have d: "1 \<le> \<bar>real_of_int a - real_of_int b\<bar>"
    by (metis of_int_1_le_iff of_int_abs of_int_diff)
  define e where "e = (1 / 2) * (real_of_int (a - pot_offset) / (real_of_int bits12 / 25))
          - (1 / 2) * (real_of_int (b - pot_offset) / (real_of_int bits12 / 25))"
  have "e = (real_of_int a - real_of_int b) * (25 / 8190)"
    by (simp add: e_def bits12_def field_simps)
  then have "\<bar>e\<bar> = \<bar>real_of_int a - real_of_int b\<bar> * (25 / 8190)"
    by (simp only: abs_mult)
  with d have "1 / 1000 < \<bar>e\<bar>" by simp
  then show ?thesis by (simp only: e_def)
qed

lemma update_Noise_at_test:
  assumes "noise_enable n" and "pot_offset < adc"
  shows "update_Noise random adc n =
     (let m = (if sigma_changed (noise_at_test adc n) then noise_recompute (noise_at_test adc n)
               else noise_at_test adc n)
      in m\<lparr>noise_current := random (noise_dist m)\<rparr>)"
  using assms by (simp add: update_Noise_def noise_at_test_def noise_recompute_def Let_def)

lemma noise_at_test_fields:
  "noise_sigma (noise_at_test adc n) = noise_sigma n"
  "noise_var (noise_at_test adc n) = noise_var n"
  "noise_dist (noise_at_test adc n) = noise_dist n"
  "noise_mean (noise_at_test adc n) = noise_mean n"
  "noise_pot_scaling (noise_at_test adc n) = noise_pot_scaling n"
  "noise_newSigma (noise_at_test adc n)
     = (1 / 2) * (real_of_int (adc - pot_offset) / noise_pot_scaling n)"
  by (simp_all add: noise_at_test_def Let_def)

text \<open>
  Under the invariant the new standard deviation and the stored one are equal or more
  than \<open>1e-3\<close> apart.
\<close>

lemma noise_inv_gap:
  assumes "noise_inv n"
  shows "noise_newSigma (noise_at_test adc n) = noise_sigma n
    \<or> \<bar>noise_newSigma (noise_at_test adc n) - noise_sigma n\<bar> > 1 / 1000"
proof -
  define k where "k = \<lfloor>noise_sigma n * 2 * noise_pot_scaling n\<rfloor>"
  from assms have sc: "noise_pot_scaling n = real_of_int bits12 / 25"
    and k: "real_of_int k = noise_sigma n * 2 * noise_pot_scaling n"
    by (simp_all add: noise_inv_def k_def)
  from k sc have sg: "noise_sigma n = (1 / 2) * (real_of_int (k + pot_offset - pot_offset) / (real_of_int bits12 / 25))"
    by (simp add: bits12_def)
  have nw: "noise_newSigma (noise_at_test adc n)
      = (1 / 2) * (real_of_int (adc - pot_offset) / (real_of_int bits12 / 25))"
    by (simp add: noise_at_test_fields sc)
  show ?thesis
  proof (cases "adc = k + pot_offset")
    case True
    have "noise_newSigma (noise_at_test adc n) = noise_sigma n"
      unfolding nw sg by (simp only: True)
    then show ?thesis ..
  next
    case False
    from shipped_scaling_steps [OF False]
    have "\<bar>noise_newSigma (noise_at_test adc n) - noise_sigma n\<bar> > 1 / 1000"
      unfolding nw sg .
    then show ?thesis ..
  qed
qed

lemma noise_inv_init: "noise_inv noise_init"
  by (simp add: noise_inv_def noise_init_def bits12_def)

lemma noise_inv_update:
  assumes "noise_inv n"
  shows "noise_inv (update_Noise random adc n)"
proof (cases "noise_enable n \<and> pot_offset < adc")
  case False
  with assms show ?thesis by (auto simp: update_Noise_def noise_inv_def Let_def)
next
  case True
  then have e: "noise_enable n" and a: "pot_offset < adc" by simp_all
  from assms have sc: "noise_pot_scaling n = real_of_int bits12 / 25" by (simp add: noise_inv_def)
  show ?thesis
  proof (cases "sigma_changed (noise_at_test adc n)")
    case False
    with assms show ?thesis
      by (simp add: update_Noise_at_test [OF e a] noise_inv_def noise_at_test_fields)
  next
    case True
    have prod: "noise_newSigma (noise_at_test adc n) * 2 * noise_pot_scaling n = real_of_int (adc - pot_offset)"
      by (simp add: noise_at_test_fields sc bits12_def)
    have nonneg: "0 \<le> noise_newSigma (noise_at_test adc n)"
      using a by (simp add: noise_at_test_fields sc bits12_def)
    have fields: "noise_sigma (update_Noise random adc n) = noise_newSigma (noise_at_test adc n)"
      "noise_pot_scaling (update_Noise random adc n) = noise_pot_scaling n"
      using True
      by (simp_all add: update_Noise_at_test [OF e a] noise_recompute_def Let_def noise_at_test_fields)
    show ?thesis unfolding noise_inv_def fields prod
      using sc nonneg by simp
  qed
qed

text \<open>
  Claim C5. The source tests \<open>fabsf(noise.newSigma != noise.sigma) > 1e-3f\<close>, which
  holds as soon as the two values differ. In every state the generator can be in
  (\<open>noise_inv\<close> holds initially and is kept by every tick and every command), autonomous
  and reading the potentiometer above the offset, two different values are more than
  \<open>1e-3\<close> apart, so that the test decides as the claim says: when the new standard
  deviation differs from the stored one by more than \<open>1e-3\<close>, the stored standard
  deviation becomes the new one, the variance its square and the distribution gets that
  variance and the mean of the generator; when the difference is at most \<open>1e-3\<close>, the
  standard deviation, the variance and the distribution are left as they were. Either way
  the noise current is the sample drawn from the distribution then in force.
\<close>

theorem noise_recompute_iff:
  assumes "noise_inv n" and "noise_enable n" and "pot_offset < adc"
  shows "(sigma_changed (noise_at_test adc n) \<longleftrightarrow> sigma_changed_significantly (noise_at_test adc n))
    \<and> (sigma_changed_significantly (noise_at_test adc n) \<longrightarrow>
          noise_sigma (update_Noise random adc n) = noise_newSigma (noise_at_test adc n)
          \<and> noise_var (update_Noise random adc n)
              = noise_newSigma (noise_at_test adc n) * noise_newSigma (noise_at_test adc n)
          \<and> noise_dist (update_Noise random adc n)
              = \<lparr>mean = noise_mean n,
                 variance = noise_newSigma (noise_at_test adc n) * noise_newSigma (noise_at_test adc n)\<rparr>)
    \<and> (\<not> sigma_changed_significantly (noise_at_test adc n) \<longrightarrow>
          noise_sigma (update_Noise random adc n) = noise_sigma n
          \<and> noise_var (update_Noise random adc n) = noise_var n
          \<and> noise_dist (update_Noise random adc n) = noise_dist n)
    \<and> noise_current (update_Noise random adc n) = random (noise_dist (update_Noise random adc n))"
proof -
  let ?m = "noise_at_test adc n"
  have iff: "sigma_changed ?m \<longleftrightarrow> sigma_changed_significantly ?m"
    using noise_inv_gap [OF assms(1), of adc]
    by (auto simp: sigma_changed_iff sigma_changed_significantly_def noise_at_test_fields(1))
  note u = update_Noise_at_test [OF assms(2,3), of random]
  have 1: "sigma_changed_significantly ?m \<longrightarrow>
          noise_sigma (update_Noise random adc n) = noise_newSigma ?m
          \<and> noise_var (update_Noise random adc n) = noise_newSigma ?m * noise_newSigma ?m
          \<and> noise_dist (update_Noise random adc n)
              = \<lparr>mean = noise_mean n, variance = noise_newSigma ?m * noise_newSigma ?m\<rparr>"
    using iff by (simp add: u noise_recompute_def Let_def noise_at_test_fields)
  have 2: "\<not> sigma_changed_significantly ?m \<longrightarrow>
          noise_sigma (update_Noise random adc n) = noise_sigma n
          \<and> noise_var (update_Noise random adc n) = noise_var n
          \<and> noise_dist (update_Noise random adc n) = noise_dist n"
    using iff by (simp add: u Let_def noise_at_test_fields)
  have 3: "noise_current (update_Noise random adc n) = random (noise_dist (update_Noise random adc n))"
    by (simp add: u Let_def)
  show ?thesis by (intro conjI iff 1 2 3)
qed

theorem noise_recompute_iff_witness:
  "noise_inv noise_init \<and> noise_enable noise_init \<and> pot_offset < 274
   \<and> sigma_changed (noise_at_test 274 noise_init)
   \<and> sigma_changed_significantly (noise_at_test 274 noise_init)
   \<and> noise_current (update_Noise show_variance 274 noise_init)
        = show_variance (noise_dist (update_Noise show_variance 274 noise_init))"
proof -
  have h: "noise_inv noise_init" "noise_enable noise_init" "pot_offset < 274"
    by (rule noise_inv_init) (simp_all add: noise_init_def pot_offset_def bits12_def c_div_def)
  have s: "sigma_changed_significantly (noise_at_test 274 noise_init)"
    by (simp add: sigma_changed_significantly_def noise_at_test_def noise_init_def Let_def
        pot_offset_def bits12_def c_div_def)
  from noise_recompute_iff [OF h, of show_variance] s h show ?thesis by blast
qed

subsection \<open>The two transports\<close>

lemmas serial_handlers = SetRefreshRate_def NeuronMode_def StimFre_on_def StimFre_off_def
  StimStr_on_def StimStr_off_def StimCus_on_def StimCus_off_def Serial_Trigger_def
  PDGain_on_def PDGain_off_def PDDecay_on_def PDDecay_off_def PDRecovery_on_def
  PDRecovery_off_def IC_on_def IC_off_def Noise_on_def Noise_off_def Syn1Gain_on_def
  Syn1Gain_off_def Syn1Decay_on_def Syn1Decay_off_def Syn2Gain_on_def Syn2Gain_off_def
  Syn2Decay_on_def Syn2Decay_off_def Connected_def Unrecognized_def
  setFloatParam_def setIntParam_def readNextFloat_def readNextInt_def
  applyFloat_def applyInt_def

lemma vocabulary_eq:
  "vocabulary = [''DT'', ''NEU'', ''FR1'', ''FR0'', ''ST1'', ''ST0'', ''SC1'', ''SC0'', ''TR'', ''PG1'', ''PG0'', ''PD1'', ''PD0'', ''PR1'', ''PR0'', ''IC1'', ''IC0'', ''NO1'', ''NO0'', ''SG11'', ''SG10'', ''SD11'', ''SD10'', ''SG21'', ''SG20'', ''SD21'', ''SD20'', ''BZ1'', ''BZ0'', ''LED1'', ''LED0'', ''CON'']"
  by (simp add: vocabulary_def SerialFunctions_def)

lemma dispatchToken_unknown:
  "cmd \<notin> set vocabulary \<Longrightarrow> dispatchToken cmd hasVal v s = Some s"
  by (simp add: vocabulary_eq dispatchToken_def Connected_def)

lemma serial_command_unknown:
  assumes "cmd \<notin> set vocabulary"
  shows "serial_command cmd arg s = Some s"
proof -
  from assms have "map_of SerialFunctions cmd = None"
    by (simp add: map_of_eq_None_iff vocabulary_def)
  then show ?thesis by (simp add: serial_command_def Unrecognized_def)
qed

lemma transports_agree_float:
  assumes "atof t = v"
  shows
    "dispatchToken ''PG1'' True v s = serial_command ''PG1'' (Some t) s"
    "dispatchToken ''PD1'' True v s = serial_command ''PD1'' (Some t) s"
    "dispatchToken ''PR1'' True v s = serial_command ''PR1'' (Some t) s"
    "dispatchToken ''IC1'' True v s = serial_command ''IC1'' (Some t) s"
    "dispatchToken ''NO1'' True v s = serial_command ''NO1'' (Some t) s"
    "dispatchToken ''SG11'' True v s = serial_command ''SG11'' (Some t) s"
    "dispatchToken ''SD11'' True v s = serial_command ''SD11'' (Some t) s"
    "dispatchToken ''SG21'' True v s = serial_command ''SG21'' (Some t) s"
    "dispatchToken ''SD21'' True v s = serial_command ''SD21'' (Some t) s"
  using assms
  by (simp_all add: dispatchToken_def serial_command_def SerialFunctions_def serial_handlers Let_def)

lemma transports_agree_int:
  assumes "atoi t = c_trunc v"
  shows
    "dispatchToken ''NEU'' True v s = serial_command ''NEU'' (Some t) s"
    "dispatchToken ''FR1'' True v s = serial_command ''FR1'' (Some t) s"
    "dispatchToken ''ST1'' True v s = serial_command ''ST1'' (Some t) s"
    "dispatchToken ''SC1'' True v s = serial_command ''SC1'' (Some t) s"
  using assms
  by (simp_all add: dispatchToken_def serial_command_def SerialFunctions_def serial_handlers Let_def)

lemma transports_agree_argument_ignored:
  shows
    "dispatchToken ''FR0'' True v s = serial_command ''FR0'' (Some t) s"
    "dispatchToken ''ST0'' True v s = serial_command ''ST0'' (Some t) s"
    "dispatchToken ''SC0'' True v s = serial_command ''SC0'' (Some t) s"
    "dispatchToken ''TR'' True v s = serial_command ''TR'' (Some t) s"
    "dispatchToken ''PG0'' True v s = serial_command ''PG0'' (Some t) s"
    "dispatchToken ''PD0'' True v s = serial_command ''PD0'' (Some t) s"
    "dispatchToken ''PR0'' True v s = serial_command ''PR0'' (Some t) s"
    "dispatchToken ''IC0'' True v s = serial_command ''IC0'' (Some t) s"
    "dispatchToken ''NO0'' True v s = serial_command ''NO0'' (Some t) s"
    "dispatchToken ''SG10'' True v s = serial_command ''SG10'' (Some t) s"
    "dispatchToken ''SD10'' True v s = serial_command ''SD10'' (Some t) s"
    "dispatchToken ''SG20'' True v s = serial_command ''SG20'' (Some t) s"
    "dispatchToken ''SD20'' True v s = serial_command ''SD20'' (Some t) s"
    "dispatchToken ''BZ1'' True v s = serial_command ''BZ1'' (Some t) s"
    "dispatchToken ''BZ0'' True v s = serial_command ''BZ0'' (Some t) s"
    "dispatchToken ''LED1'' True v s = serial_command ''LED1'' (Some t) s"
    "dispatchToken ''LED0'' True v s = serial_command ''LED0'' (Some t) s"
    "dispatchToken ''CON'' True v s = serial_command ''CON'' (Some t) s"
  by (simp_all add: dispatchToken_def serial_command_def SerialFunctions_def serial_handlers Let_def)

lemma transports_agree_DT:
  assumes "atoi t = c_trunc v" and "1000 \<le> c_trunc v" and "c_trunc v \<le> 1000000"
  shows "dispatchToken ''DT'' True v s = serial_command ''DT'' (Some t) s"
  using assms
  by (simp add: dispatchToken_def serial_command_def SerialFunctions_def serial_handlers Let_def)

lemma transports_agree_no_argument:
  shows
    "dispatchToken ''DT'' False v s = serial_command ''DT'' None s"
    "dispatchToken ''NEU'' False v s = serial_command ''NEU'' None s"
    "dispatchToken ''FR0'' False v s = serial_command ''FR0'' None s"
    "dispatchToken ''ST0'' False v s = serial_command ''ST0'' None s"
    "dispatchToken ''SC0'' False v s = serial_command ''SC0'' None s"
    "dispatchToken ''TR'' False v s = serial_command ''TR'' None s"
    "dispatchToken ''PG0'' False v s = serial_command ''PG0'' None s"
    "dispatchToken ''PD0'' False v s = serial_command ''PD0'' None s"
    "dispatchToken ''PR0'' False v s = serial_command ''PR0'' None s"
    "dispatchToken ''IC0'' False v s = serial_command ''IC0'' None s"
    "dispatchToken ''NO0'' False v s = serial_command ''NO0'' None s"
    "dispatchToken ''SG10'' False v s = serial_command ''SG10'' None s"
    "dispatchToken ''SD10'' False v s = serial_command ''SD10'' None s"
    "dispatchToken ''SG20'' False v s = serial_command ''SG20'' None s"
    "dispatchToken ''SD20'' False v s = serial_command ''SD20'' None s"
    "dispatchToken ''BZ1'' False v s = serial_command ''BZ1'' None s"
    "dispatchToken ''BZ0'' False v s = serial_command ''BZ0'' None s"
    "dispatchToken ''LED1'' False v s = serial_command ''LED1'' None s"
    "dispatchToken ''LED0'' False v s = serial_command ''LED0'' None s"
    "dispatchToken ''CON'' False v s = serial_command ''CON'' None s"
  by (simp_all add: dispatchToken_def serial_command_def SerialFunctions_def serial_handlers Let_def)

lemma in_vocabulary:
  assumes "cmd \<in> set vocabulary"
  shows "cmd = ''DT'' \<or> cmd = ''NEU'' \<or> cmd = ''FR1'' \<or> cmd = ''FR0'' \<or> cmd = ''ST1'' \<or> cmd = ''ST0'' \<or> cmd = ''SC1'' \<or> cmd = ''SC0'' \<or> cmd = ''TR'' \<or> cmd = ''PG1'' \<or> cmd = ''PG0'' \<or> cmd = ''PD1'' \<or> cmd = ''PD0'' \<or> cmd = ''PR1'' \<or> cmd = ''PR0'' \<or> cmd = ''IC1'' \<or> cmd = ''IC0'' \<or> cmd = ''NO1'' \<or> cmd = ''NO0'' \<or> cmd = ''SG11'' \<or> cmd = ''SG10'' \<or> cmd = ''SD11'' \<or> cmd = ''SD10'' \<or> cmd = ''SG21'' \<or> cmd = ''SG20'' \<or> cmd = ''SD21'' \<or> cmd = ''SD20'' \<or> cmd = ''BZ1'' \<or> cmd = ''BZ0'' \<or> cmd = ''LED1'' \<or> cmd = ''LED0'' \<or> cmd = ''CON''"
  using assms by (simp add: vocabulary_eq)

text \<open>
  Two commands on which the transports differ. The network dispatcher clamps the tick
  period into 1000 to 1000000 microseconds, the serial handler stores what it reads:
  \<open>DT 500\<close> leaves a period of 500 over the serial line and of 1000 over the network.
  The serial handler of an integer parameter converts the token with \<open>atoi\<close>, the
  network dispatcher truncates the number it was sent: \<open>FR1 1e2\<close> sets the frequency to
  1 over the serial line and to 100 over the network.
\<close>

theorem transports_differ:
  "atof five_hundred = 500 \<and> atoi five_hundred = c_trunc 500
   \<and> map_option (step_us \<circ> timing) (serial_command ''DT'' (Some five_hundred) Spikeling_init) = Some 500
   \<and> map_option (step_us \<circ> timing) (dispatchToken ''DT'' True 500 Spikeling_init) = Some 1000
   \<and> dispatchToken ''DT'' True 500 Spikeling_init
        \<noteq> serial_command ''DT'' (Some five_hundred) Spikeling_init
   \<and> atof one_e2 = 100
   \<and> map_option (stim_freq \<circ> stim) (serial_command ''FR1'' (Some one_e2) Spikeling_init) = Some 1
   \<and> map_option (stim_freq \<circ> stim) (dispatchToken ''FR1'' True 100 Spikeling_init) = Some 100
   \<and> dispatchToken ''FR1'' True 100 Spikeling_init
        \<noteq> serial_command ''FR1'' (Some one_e2) Spikeling_init"
  by (simp add: dispatchToken_def serial_command_def SerialFunctions_def serial_handlers Let_def
      five_hundred_def one_e2_def c_trunc_def Spikeling_init_def timing_init_def stim_init_def)

text \<open>
  Claim C4, as the code has it. Take any command name and a number \<open>v\<close> sent over the
  network, and over the serial line a token that the conversion of the command's handler
  reads as the same number: \<open>atof\<close> reads \<open>v\<close> if the command takes a floating
  argument, \<open>atoi\<close> reads \<open>v\<close> truncated towards zero if it takes an integer one. Then
  \<open>dispatchToken\<close> has the same effect on the shared state as the serial handler
  registered under that name, for every command except \<open>DT\<close>, and for \<open>DT\<close> too when
  the period lies between 1000 and 1000000 microseconds. Sent without an argument, every
  command other than the set commands that clear an autonomy flag has the same effect
  through both.
\<close>

theorem transports_agree:
  assumes "cmd \<in> set float_commands \<longrightarrow> atof t = v"
    and "cmd \<in> set int_commands \<longrightarrow> atoi t = c_trunc v"
    and "cmd = ''DT'' \<longrightarrow> 1000 \<le> c_trunc v \<and> c_trunc v \<le> 1000000"
  shows "dispatchToken cmd True v s = serial_command cmd (Some t) s
    \<and> (cmd \<notin> set flag_set_commands \<longrightarrow> dispatchToken cmd False v s = serial_command cmd None s)"
proof (cases "cmd \<in> set vocabulary")
  case False
  then show ?thesis by (simp add: dispatchToken_unknown serial_command_unknown)
next
  case True
  note f = transports_agree_float
  note i = transports_agree_int
  note r = transports_agree_argument_ignored
  note n = transports_agree_no_argument
  from in_vocabulary [OF True] show ?thesis
  proof (elim disjE)
    assume c: "cmd = ''DT''"
    with assms(2) have "atoi t = c_trunc v" by (simp add: int_commands_def)
    with c assms(3) transports_agree_DT [of t v s] n(1) show ?thesis
      by (simp add: flag_set_commands_def)
  qed (use assms(1,2) in \<open>simp_all add: f i r n flag_set_commands_def float_commands_def int_commands_def\<close>)
qed

theorem transports_agree_witness:
  "atoi three_thousand = c_trunc 3000
   \<and> 1000 \<le> c_trunc 3000 \<and> c_trunc 3000 \<le> 1000000
   \<and> dispatchToken ''DT'' True 3000 Spikeling_init
        = serial_command ''DT'' (Some three_thousand) Spikeling_init
   \<and> dispatchToken ''DT'' False 3000 Spikeling_init = serial_command ''DT'' None Spikeling_init
   \<and> atof three_thousand = 3000
   \<and> dispatchToken ''IC1'' True 3000 Spikeling_init
        = serial_command ''IC1'' (Some three_thousand) Spikeling_init"
proof -
  have h: "atof three_thousand = 3000" "atoi three_thousand = c_trunc 3000"
    by (simp_all add: three_thousand_def c_trunc_def)
  have r: "1000 \<le> c_trunc 3000" "c_trunc 3000 \<le> 1000000"
    by (simp_all add: c_trunc_def)
  have d: "''DT'' \<in> set float_commands \<longrightarrow> atof three_thousand = 3000"
    "''DT'' \<in> set int_commands \<longrightarrow> atoi three_thousand = c_trunc 3000"
    "''DT'' = ''DT'' \<longrightarrow> 1000 \<le> c_trunc 3000 \<and> c_trunc 3000 \<le> 1000000"
    using h r by simp_all
  have c: "''IC1'' \<in> set float_commands \<longrightarrow> atof three_thousand = 3000"
    "''IC1'' \<in> set int_commands \<longrightarrow> atoi three_thousand = c_trunc 3000"
    "''IC1'' = ''DT'' \<longrightarrow> 1000 \<le> c_trunc 3000 \<and> c_trunc 3000 \<le> 1000000"
    using h by simp_all
  from transports_agree [OF d, of Spikeling_init] transports_agree [OF c, of Spikeling_init] h r
  show ?thesis by (simp add: flag_set_commands_def)
qed

subsection \<open>Set commands without an argument\<close>

text \<open>
  Claim C2, at the serial line \<open>IC1\<close> with no argument, in the initial state: the
  current-clamp value keeps its value, but the autonomy flag of the clamp, set before,
  is cleared, so the state has changed. \<open>ST1\<close> with no argument does the same to the
  stimulus strength. Through the network dispatcher neither command changes the state.
\<close>

theorem set_command_without_argument:
  "IC_enable (IC Spikeling_init)
   \<and> serial_command ''IC1'' None Spikeling_init = Some (Spikeling_init\<lparr>IC := IC_init\<lparr>IC_enable := False\<rparr>\<rparr>)
   \<and> map_option (IC_enable \<circ> IC) (serial_command ''IC1'' None Spikeling_init) = Some False
   \<and> map_option (IC_current_clamp \<circ> IC) (serial_command ''IC1'' None Spikeling_init)
        = Some (IC_current_clamp (IC Spikeling_init))
   \<and> map_option (stim_strength_enable \<circ> stim) (serial_command ''ST1'' None Spikeling_init) = Some False
   \<and> stim_strength_enable (stim Spikeling_init)
   \<and> dispatchToken ''IC1'' False 0 Spikeling_init = Some Spikeling_init
   \<and> dispatchToken ''ST1'' False 0 Spikeling_init = Some Spikeling_init"
  by (simp add: dispatchToken_def serial_command_def SerialFunctions_def serial_handlers Let_def
      Spikeling_init_def IC_init_def stim_init_def)

subsection \<open>Commands keep the invariants\<close>

lemma SetNeuronModel_stim:
  "SetNeuronModel m s = Some s' \<Longrightarrow> stim s' = stim s"
  by (auto simp: SetNeuronModel_def Let_def split: option.splits)

lemma serial_command_known_stim_inv:
  assumes "stim_inv (stim s)"
  shows
    "serial_command ''DT'' arg s = Some s' \<Longrightarrow> stim_inv (stim s')"
    "serial_command ''NEU'' arg s = Some s' \<Longrightarrow> stim_inv (stim s')"
    "serial_command ''FR1'' arg s = Some s' \<Longrightarrow> stim_inv (stim s')"
    "serial_command ''FR0'' arg s = Some s' \<Longrightarrow> stim_inv (stim s')"
    "serial_command ''ST1'' arg s = Some s' \<Longrightarrow> stim_inv (stim s')"
    "serial_command ''ST0'' arg s = Some s' \<Longrightarrow> stim_inv (stim s')"
    "serial_command ''SC1'' arg s = Some s' \<Longrightarrow> stim_inv (stim s')"
    "serial_command ''SC0'' arg s = Some s' \<Longrightarrow> stim_inv (stim s')"
    "serial_command ''TR'' arg s = Some s' \<Longrightarrow> stim_inv (stim s')"
    "serial_command ''PG1'' arg s = Some s' \<Longrightarrow> stim_inv (stim s')"
    "serial_command ''PG0'' arg s = Some s' \<Longrightarrow> stim_inv (stim s')"
    "serial_command ''PD1'' arg s = Some s' \<Longrightarrow> stim_inv (stim s')"
    "serial_command ''PD0'' arg s = Some s' \<Longrightarrow> stim_inv (stim s')"
    "serial_command ''PR1'' arg s = Some s' \<Longrightarrow> stim_inv (stim s')"
    "serial_command ''PR0'' arg s = Some s' \<Longrightarrow> stim_inv (stim s')"
    "serial_command ''IC1'' arg s = Some s' \<Longrightarrow> stim_inv (stim s')"
    "serial_command ''IC0'' arg s = Some s' \<Longrightarrow> stim_inv (stim s')"
    "serial_command ''NO1'' arg s = Some s' \<Longrightarrow> stim_inv (stim s')"
    "serial_command ''NO0'' arg s = Some s' \<Longrightarrow> stim_inv (stim s')"
    "serial_command ''SG11'' arg s = Some s' \<Longrightarrow> stim_inv (stim s')"
    "serial_command ''SG10'' arg s = Some s' \<Longrightarrow> stim_inv (stim s')"
    "serial_command ''SD11'' arg s = Some s' \<Longrightarrow> stim_inv (stim s')"
    "serial_command ''SD10'' arg s = Some s' \<Longrightarrow> stim_inv (stim s')"
    "serial_command ''SG21'' arg s = Some s' \<Longrightarrow> stim_inv (stim s')"
    "serial_command ''SG20'' arg s = Some s' \<Longrightarrow> stim_inv (stim s')"
    "serial_command ''SD21'' arg s = Some s' \<Longrightarrow> stim_inv (stim s')"
    "serial_command ''SD20'' arg s = Some s' \<Longrightarrow> stim_inv (stim s')"
    "serial_command ''BZ1'' arg s = Some s' \<Longrightarrow> stim_inv (stim s')"
    "serial_command ''BZ0'' arg s = Some s' \<Longrightarrow> stim_inv (stim s')"
    "serial_command ''LED1'' arg s = Some s' \<Longrightarrow> stim_inv (stim s')"
    "serial_command ''LED0'' arg s = Some s' \<Longrightarrow> stim_inv (stim s')"
    "serial_command ''CON'' arg s = Some s' \<Longrightarrow> stim_inv (stim s')"
  using assms
  by (auto simp: serial_command_def SerialFunctions_def serial_handlers Let_def stim_inv_def
      Buzzer_on_def Buzzer_off_def LED_on_def LED_off_def
      dest: SetNeuronModel_stim split: option.splits)

lemma serial_command_stim_inv:
  assumes "stim_inv (stim s)" and "serial_command cmd arg s = Some s'"
  shows "stim_inv (stim s')"
proof (cases "cmd \<in> set vocabulary")
  case False
  with assms show ?thesis by (simp add: serial_command_unknown)
next
  case True
  from in_vocabulary [OF True] assms(2) show ?thesis
    by (elim disjE) (auto dest: serial_command_known_stim_inv [OF assms(1)])
qed

lemma dispatchToken_known_stim_inv:
  assumes "stim_inv (stim s)"
  shows
    "dispatchToken ''DT'' hasVal v s = Some s' \<Longrightarrow> stim_inv (stim s')"
    "dispatchToken ''NEU'' hasVal v s = Some s' \<Longrightarrow> stim_inv (stim s')"
    "dispatchToken ''FR1'' hasVal v s = Some s' \<Longrightarrow> stim_inv (stim s')"
    "dispatchToken ''FR0'' hasVal v s = Some s' \<Longrightarrow> stim_inv (stim s')"
    "dispatchToken ''ST1'' hasVal v s = Some s' \<Longrightarrow> stim_inv (stim s')"
    "dispatchToken ''ST0'' hasVal v s = Some s' \<Longrightarrow> stim_inv (stim s')"
    "dispatchToken ''SC1'' hasVal v s = Some s' \<Longrightarrow> stim_inv (stim s')"
    "dispatchToken ''SC0'' hasVal v s = Some s' \<Longrightarrow> stim_inv (stim s')"
    "dispatchToken ''TR'' hasVal v s = Some s' \<Longrightarrow> stim_inv (stim s')"
    "dispatchToken ''PG1'' hasVal v s = Some s' \<Longrightarrow> stim_inv (stim s')"
    "dispatchToken ''PG0'' hasVal v s = Some s' \<Longrightarrow> stim_inv (stim s')"
    "dispatchToken ''PD1'' hasVal v s = Some s' \<Longrightarrow> stim_inv (stim s')"
    "dispatchToken ''PD0'' hasVal v s = Some s' \<Longrightarrow> stim_inv (stim s')"
    "dispatchToken ''PR1'' hasVal v s = Some s' \<Longrightarrow> stim_inv (stim s')"
    "dispatchToken ''PR0'' hasVal v s = Some s' \<Longrightarrow> stim_inv (stim s')"
    "dispatchToken ''IC1'' hasVal v s = Some s' \<Longrightarrow> stim_inv (stim s')"
    "dispatchToken ''IC0'' hasVal v s = Some s' \<Longrightarrow> stim_inv (stim s')"
    "dispatchToken ''NO1'' hasVal v s = Some s' \<Longrightarrow> stim_inv (stim s')"
    "dispatchToken ''NO0'' hasVal v s = Some s' \<Longrightarrow> stim_inv (stim s')"
    "dispatchToken ''SG11'' hasVal v s = Some s' \<Longrightarrow> stim_inv (stim s')"
    "dispatchToken ''SG10'' hasVal v s = Some s' \<Longrightarrow> stim_inv (stim s')"
    "dispatchToken ''SD11'' hasVal v s = Some s' \<Longrightarrow> stim_inv (stim s')"
    "dispatchToken ''SD10'' hasVal v s = Some s' \<Longrightarrow> stim_inv (stim s')"
    "dispatchToken ''SG21'' hasVal v s = Some s' \<Longrightarrow> stim_inv (stim s')"
    "dispatchToken ''SG20'' hasVal v s = Some s' \<Longrightarrow> stim_inv (stim s')"
    "dispatchToken ''SD21'' hasVal v s = Some s' \<Longrightarrow> stim_inv (stim s')"
    "dispatchToken ''SD20'' hasVal v s = Some s' \<Longrightarrow> stim_inv (stim s')"
    "dispatchToken ''BZ1'' hasVal v s = Some s' \<Longrightarrow> stim_inv (stim s')"
    "dispatchToken ''BZ0'' hasVal v s = Some s' \<Longrightarrow> stim_inv (stim s')"
    "dispatchToken ''LED1'' hasVal v s = Some s' \<Longrightarrow> stim_inv (stim s')"
    "dispatchToken ''LED0'' hasVal v s = Some s' \<Longrightarrow> stim_inv (stim s')"
    "dispatchToken ''CON'' hasVal v s = Some s' \<Longrightarrow> stim_inv (stim s')"
  using assms
  by (auto simp: dispatchToken_def serial_handlers Let_def stim_inv_def
      Buzzer_on_def Buzzer_off_def LED_on_def LED_off_def
      dest: SetNeuronModel_stim split: if_splits)

lemma dispatchToken_stim_inv:
  assumes "stim_inv (stim s)" and "dispatchToken cmd hasVal v s = Some s'"
  shows "stim_inv (stim s')"
proof (cases "cmd \<in> set vocabulary")
  case False
  with assms show ?thesis by (simp add: dispatchToken_unknown)
next
  case True
  from in_vocabulary [OF True] assms(2) show ?thesis
    by (elim disjE) (auto dest: dispatchToken_known_stim_inv [OF assms(1)])
qed

lemma SetNeuronModel_noise:
  "SetNeuronModel m s = Some s' \<Longrightarrow> noise s' = noise s"
  by (auto simp: SetNeuronModel_def Let_def split: option.splits)

lemma serial_command_known_noise_inv:
  assumes "noise_inv (noise s)"
  shows
    "serial_command ''DT'' arg s = Some s' \<Longrightarrow> noise_inv (noise s')"
    "serial_command ''NEU'' arg s = Some s' \<Longrightarrow> noise_inv (noise s')"
    "serial_command ''FR1'' arg s = Some s' \<Longrightarrow> noise_inv (noise s')"
    "serial_command ''FR0'' arg s = Some s' \<Longrightarrow> noise_inv (noise s')"
    "serial_command ''ST1'' arg s = Some s' \<Longrightarrow> noise_inv (noise s')"
    "serial_command ''ST0'' arg s = Some s' \<Longrightarrow> noise_inv (noise s')"
    "serial_command ''SC1'' arg s = Some s' \<Longrightarrow> noise_inv (noise s')"
    "serial_command ''SC0'' arg s = Some s' \<Longrightarrow> noise_inv (noise s')"
    "serial_command ''TR'' arg s = Some s' \<Longrightarrow> noise_inv (noise s')"
    "serial_command ''PG1'' arg s = Some s' \<Longrightarrow> noise_inv (noise s')"
    "serial_command ''PG0'' arg s = Some s' \<Longrightarrow> noise_inv (noise s')"
    "serial_command ''PD1'' arg s = Some s' \<Longrightarrow> noise_inv (noise s')"
    "serial_command ''PD0'' arg s = Some s' \<Longrightarrow> noise_inv (noise s')"
    "serial_command ''PR1'' arg s = Some s' \<Longrightarrow> noise_inv (noise s')"
    "serial_command ''PR0'' arg s = Some s' \<Longrightarrow> noise_inv (noise s')"
    "serial_command ''IC1'' arg s = Some s' \<Longrightarrow> noise_inv (noise s')"
    "serial_command ''IC0'' arg s = Some s' \<Longrightarrow> noise_inv (noise s')"
    "serial_command ''NO1'' arg s = Some s' \<Longrightarrow> noise_inv (noise s')"
    "serial_command ''NO0'' arg s = Some s' \<Longrightarrow> noise_inv (noise s')"
    "serial_command ''SG11'' arg s = Some s' \<Longrightarrow> noise_inv (noise s')"
    "serial_command ''SG10'' arg s = Some s' \<Longrightarrow> noise_inv (noise s')"
    "serial_command ''SD11'' arg s = Some s' \<Longrightarrow> noise_inv (noise s')"
    "serial_command ''SD10'' arg s = Some s' \<Longrightarrow> noise_inv (noise s')"
    "serial_command ''SG21'' arg s = Some s' \<Longrightarrow> noise_inv (noise s')"
    "serial_command ''SG20'' arg s = Some s' \<Longrightarrow> noise_inv (noise s')"
    "serial_command ''SD21'' arg s = Some s' \<Longrightarrow> noise_inv (noise s')"
    "serial_command ''SD20'' arg s = Some s' \<Longrightarrow> noise_inv (noise s')"
    "serial_command ''BZ1'' arg s = Some s' \<Longrightarrow> noise_inv (noise s')"
    "serial_command ''BZ0'' arg s = Some s' \<Longrightarrow> noise_inv (noise s')"
    "serial_command ''LED1'' arg s = Some s' \<Longrightarrow> noise_inv (noise s')"
    "serial_command ''LED0'' arg s = Some s' \<Longrightarrow> noise_inv (noise s')"
    "serial_command ''CON'' arg s = Some s' \<Longrightarrow> noise_inv (noise s')"
  using assms
  by (auto simp: serial_command_def SerialFunctions_def serial_handlers Let_def noise_inv_def
      Buzzer_on_def Buzzer_off_def LED_on_def LED_off_def
      dest: SetNeuronModel_noise split: option.splits)

lemma serial_command_noise_inv:
  assumes "noise_inv (noise s)" and "serial_command cmd arg s = Some s'"
  shows "noise_inv (noise s')"
proof (cases "cmd \<in> set vocabulary")
  case False
  with assms show ?thesis by (simp add: serial_command_unknown)
next
  case True
  from in_vocabulary [OF True] assms(2) show ?thesis
    by (elim disjE) (auto dest: serial_command_known_noise_inv [OF assms(1)])
qed

lemma dispatchToken_known_noise_inv:
  assumes "noise_inv (noise s)"
  shows
    "dispatchToken ''DT'' hasVal v s = Some s' \<Longrightarrow> noise_inv (noise s')"
    "dispatchToken ''NEU'' hasVal v s = Some s' \<Longrightarrow> noise_inv (noise s')"
    "dispatchToken ''FR1'' hasVal v s = Some s' \<Longrightarrow> noise_inv (noise s')"
    "dispatchToken ''FR0'' hasVal v s = Some s' \<Longrightarrow> noise_inv (noise s')"
    "dispatchToken ''ST1'' hasVal v s = Some s' \<Longrightarrow> noise_inv (noise s')"
    "dispatchToken ''ST0'' hasVal v s = Some s' \<Longrightarrow> noise_inv (noise s')"
    "dispatchToken ''SC1'' hasVal v s = Some s' \<Longrightarrow> noise_inv (noise s')"
    "dispatchToken ''SC0'' hasVal v s = Some s' \<Longrightarrow> noise_inv (noise s')"
    "dispatchToken ''TR'' hasVal v s = Some s' \<Longrightarrow> noise_inv (noise s')"
    "dispatchToken ''PG1'' hasVal v s = Some s' \<Longrightarrow> noise_inv (noise s')"
    "dispatchToken ''PG0'' hasVal v s = Some s' \<Longrightarrow> noise_inv (noise s')"
    "dispatchToken ''PD1'' hasVal v s = Some s' \<Longrightarrow> noise_inv (noise s')"
    "dispatchToken ''PD0'' hasVal v s = Some s' \<Longrightarrow> noise_inv (noise s')"
    "dispatchToken ''PR1'' hasVal v s = Some s' \<Longrightarrow> noise_inv (noise s')"
    "dispatchToken ''PR0'' hasVal v s = Some s' \<Longrightarrow> noise_inv (noise s')"
    "dispatchToken ''IC1'' hasVal v s = Some s' \<Longrightarrow> noise_inv (noise s')"
    "dispatchToken ''IC0'' hasVal v s = Some s' \<Longrightarrow> noise_inv (noise s')"
    "dispatchToken ''NO1'' hasVal v s = Some s' \<Longrightarrow> noise_inv (noise s')"
    "dispatchToken ''NO0'' hasVal v s = Some s' \<Longrightarrow> noise_inv (noise s')"
    "dispatchToken ''SG11'' hasVal v s = Some s' \<Longrightarrow> noise_inv (noise s')"
    "dispatchToken ''SG10'' hasVal v s = Some s' \<Longrightarrow> noise_inv (noise s')"
    "dispatchToken ''SD11'' hasVal v s = Some s' \<Longrightarrow> noise_inv (noise s')"
    "dispatchToken ''SD10'' hasVal v s = Some s' \<Longrightarrow> noise_inv (noise s')"
    "dispatchToken ''SG21'' hasVal v s = Some s' \<Longrightarrow> noise_inv (noise s')"
    "dispatchToken ''SG20'' hasVal v s = Some s' \<Longrightarrow> noise_inv (noise s')"
    "dispatchToken ''SD21'' hasVal v s = Some s' \<Longrightarrow> noise_inv (noise s')"
    "dispatchToken ''SD20'' hasVal v s = Some s' \<Longrightarrow> noise_inv (noise s')"
    "dispatchToken ''BZ1'' hasVal v s = Some s' \<Longrightarrow> noise_inv (noise s')"
    "dispatchToken ''BZ0'' hasVal v s = Some s' \<Longrightarrow> noise_inv (noise s')"
    "dispatchToken ''LED1'' hasVal v s = Some s' \<Longrightarrow> noise_inv (noise s')"
    "dispatchToken ''LED0'' hasVal v s = Some s' \<Longrightarrow> noise_inv (noise s')"
    "dispatchToken ''CON'' hasVal v s = Some s' \<Longrightarrow> noise_inv (noise s')"
  using assms
  by (auto simp: dispatchToken_def serial_handlers Let_def noise_inv_def
      Buzzer_on_def Buzzer_off_def LED_on_def LED_off_def
      dest: SetNeuronModel_noise split: if_splits)

lemma dispatchToken_noise_inv:
  assumes "noise_inv (noise s)" and "dispatchToken cmd hasVal v s = Some s'"
  shows "noise_inv (noise s')"
proof (cases "cmd \<in> set vocabulary")
  case False
  with assms show ?thesis by (simp add: dispatchToken_unknown)
next
  case True
  from in_vocabulary [OF True] assms(2) show ?thesis
    by (elim disjE) (auto dest: dispatchToken_known_noise_inv [OF assms(1)])
qed

end
